theory Spec2Isabelle
  imports Complex_Main "HOL-Library.Word" "HOL-Library.Sublist" "HOL-Library.Log_Nat"
begin

unbundle bit_operations_syntax

section \<open>JavaScript values and strings\<close>

text \<open>
  A JavaScript expression that may evaluate to \<^verbatim>\<open>undefined\<close> (an array read out of range, an
  object field that was never set) or to \<^verbatim>\<open>null\<close> (the explicit early returns of
  \<^verbatim>\<open>randomChoice\<close> and \<^verbatim>\<open>randomWeightedChoice\<close>) is a value of \<open>'a jsval\<close>.
  The numbers of \<^verbatim>\<open>SeedManager\<close> and \<^verbatim>\<open>SpoofingEngine\<close> are modelled as exact reals: the
  integers that are divided and multiplied there lie far below \<open>2^53\<close>, so a floor of a
  draw times a small count is the floor that the doubles give. The arithmetic of
  \<^verbatim>\<open>CanvasInterceptor\<close> is modelled in doubles: every operation is rounded.
  Strings are lists of 8-bit characters, \<^verbatim>\<open>charCodeAt\<close> is \<open>of_char\<close>.
\<close>

datatype 'a jsval = Undefined | Null | Val 'a

datatype error = TypeError | RangeError

text \<open>\<^verbatim>\<open>array[idx]\<close>: \<^verbatim>\<open>undefined\<close> outside the array.\<close>

definition array_get :: "'a list \<Rightarrow> int \<Rightarrow> 'a jsval" where
  "array_get xs i = (if 0 \<le> i \<and> i < int (length xs) then Val (xs ! nat i) else Undefined)"

text \<open>\<^verbatim>\<open>`${index}`\<close> for a non-negative integer: its decimal digits.\<close>

definition digit_char :: "nat \<Rightarrow> char" where
  "digit_char d = char_of (48 + d)"

function toString10 :: "nat \<Rightarrow> string" where
  "toString10 n = (if n < 10 then [digit_char n]
                   else toString10 (n div 10) @ [digit_char (n mod 10)])"
  by pat_completeness auto
termination
  by (relation "measure (\<lambda>n. n)") auto

declare toString10.simps [simp del]

text \<open>\<^verbatim>\<open>n.toString(16)\<close> for a non-negative integer: lower-case hexadecimal digits.\<close>

definition hex_char :: "nat \<Rightarrow> char" where
  "hex_char d = (if d < 10 then char_of (48 + d) else char_of (87 + d))"

function toString16 :: "nat \<Rightarrow> string" where
  "toString16 n = (if n < 16 then [hex_char n]
                   else toString16 (n div 16) @ [hex_char (n mod 16)])"
  by pat_completeness auto
termination
  by (relation "measure (\<lambda>n. n)") auto

declare toString16.simps [simp del]

definition padStart :: "string \<Rightarrow> nat \<Rightarrow> char \<Rightarrow> string" where
  "padStart s n c = replicate (n - length s) c @ s"

definition substr :: "string \<Rightarrow> nat \<Rightarrow> nat \<Rightarrow> string" where
  "substr s start len = take len (drop start s)"

text \<open>
  \<^verbatim>\<open>parseInt(s, 16)\<close> on a string of hexadecimal digits: digits are consumed from the left
  up to the first character that is not one. \<^verbatim>\<open>hash\<close> returns exactly eight such digits
  (lemma \<open>parseInt16_hash\<close>), so the sign, prefix and \<^verbatim>\<open>NaN\<close> cases of \<^verbatim>\<open>parseInt\<close> do not
  arise at its only call site.
\<close>

definition hexval :: "char \<Rightarrow> nat option" where
  "hexval c = (let n = (of_char c :: nat) in
     if 48 \<le> n \<and> n \<le> 57 then Some (n - 48)
     else if 97 \<le> n \<and> n \<le> 102 then Some (n - 87)
     else if 65 \<le> n \<and> n \<le> 70 then Some (n - 55)
     else None)"

fun parseInt16_loop :: "nat \<Rightarrow> string \<Rightarrow> nat" where
  "parseInt16_loop acc [] = acc"
| "parseInt16_loop acc (c # cs) =
     (case hexval c of None \<Rightarrow> acc | Some d \<Rightarrow> parseInt16_loop (acc * 16 + d) cs)"

definition parseInt16 :: "string \<Rightarrow> nat" where
  "parseInt16 s = parseInt16_loop 0 s"

text \<open>\<^verbatim>\<open>s.includes(sub)\<close>: \<open>sub\<close> occurs in \<open>s\<close> as a contiguous substring.\<close>

fun str_includes :: "string \<Rightarrow> string \<Rightarrow> bool" where
  "str_includes [] sub = (sub = [])"
| "str_includes (c # cs) sub = (prefix sub (c # cs) \<or> str_includes cs sub)"

text \<open>
  \<^verbatim>\<open>s.toLowerCase()\<close> on 8-bit characters: A-Z and the Latin-1 capitals
  (0xC0-0xDE, without the multiplication sign 0xD7) move up by 32.
\<close>

definition lower_char :: "char \<Rightarrow> char" where
  "lower_char c = (let n = (of_char c :: nat) in
     if (65 \<le> n \<and> n \<le> 90) \<or> (192 \<le> n \<and> n \<le> 222 \<and> n \<noteq> 215)
     then char_of (n + 32) else c)"

definition toLowerCase :: "string \<Rightarrow> string" where
  "toLowerCase s = map lower_char s"

section \<open>SeedManager\<close>

subsection \<open>The FNV-1a hash and the random field\<close>

definition FNV_OFFSET_BASIS :: "32 word" where
  "FNV_OFFSET_BASIS = 2166136261"

definition FNV_PRIME :: "32 word" where
  "FNV_PRIME = 16777619"

text \<open>
  The loop of \<^verbatim>\<open>hash\<close>: \<^verbatim>\<open>hash ^= str.charCodeAt(i); hash = Math.imul(hash, FNV_PRIME)\<close>.
  Both operations work on the 32-bit pattern of \<^verbatim>\<open>hash\<close>.
\<close>

fun hash_loop :: "32 word \<Rightarrow> string \<Rightarrow> 32 word" where
  "hash_loop h [] = h"
| "hash_loop h (c # cs) = hash_loop ((h XOR of_char c) * FNV_PRIME) cs"

text \<open>\<^verbatim>\<open>(hash >>> 0).toString(16).padStart(8, '0')\<close>\<close>

definition hash :: "string \<Rightarrow> string" where
  "hash str = padStart (toString16 (unat (hash_loop FNV_OFFSET_BASIS str))) 8 (CHR ''0'')"

text \<open>
  The body of \<^verbatim>\<open>random(index)\<close> once \<^verbatim>\<open>getSeed()\<close> has returned \<open>seed\<close>:
  the key is \<^verbatim>\<open>`${seed}-${index}`\<close> and the divisor is \<^verbatim>\<open>0xFFFFFFFF\<close>.
\<close>

definition random :: "string \<Rightarrow> nat \<Rightarrow> real" where
  "random seed index =
     (let h = hash (seed @ ''-'' @ toString10 index);
          num = parseInt16 (substr h 0 8)
      in real num / 4294967295)"

definition randomInt :: "string \<Rightarrow> int \<Rightarrow> int \<Rightarrow> nat \<Rightarrow> int" where
  "randomInt seed mn mx index =
     (let rand = random seed index in \<lfloor>rand * real_of_int (mx - mn + 1)\<rfloor> + mn)"

definition randomChoice :: "string \<Rightarrow> 'a list \<Rightarrow> nat \<Rightarrow> 'a jsval" where
  "randomChoice seed array index =
     (if length array = 0 then Null
      else let idx = randomInt seed 0 (int (length array) - 1) index in array_get array idx)"

text \<open>
  The selection loop of \<^verbatim>\<open>randomWeightedChoice\<close>. \<open>None\<close> means that the loop ran to its
  end without returning, and the caller falls back to the last item. A weight read past
  the end of \<^verbatim>\<open>weights\<close> is \<^verbatim>\<open>undefined\<close>: the remainder becomes \<^verbatim>\<open>NaN\<close>, no later
  comparison \<^verbatim>\<open>random <= 0\<close> holds, and the loop runs to its end.
\<close>

fun weighted_loop :: "'a list \<Rightarrow> real list \<Rightarrow> real \<Rightarrow> 'a option" where
  "weighted_loop [] ws r = None"
| "weighted_loop (x # xs) [] r = None"
| "weighted_loop (x # xs) (w # ws) r =
     (if r - w \<le> 0 then Some x else weighted_loop xs ws (r - w))"

definition randomWeightedChoice :: "string \<Rightarrow> 'a list \<Rightarrow> real list \<Rightarrow> nat \<Rightarrow> 'a jsval" where
  "randomWeightedChoice seed items weights index =
     (if length items = 0 then Null
      else let totalWeight = foldl (\<lambda>sum w. sum + w) 0 weights;
               r = random seed index * totalWeight
           in case weighted_loop items weights r of
                Some x \<Rightarrow> Val x
              | None \<Rightarrow> Val (last items))"

subsection \<open>Seed retention\<close>

text \<open>
  \<^verbatim>\<open>domainSeeds\<close> is a \<^verbatim>\<open>Map\<close>: distinct keys in insertion order. \<^verbatim>\<open>set\<close> on a key that
  is present replaces its value in place; on a new key it appends. The host page
  (\<^verbatim>\<open>window.location.hostname\<close>) and the token that \<^verbatim>\<open>crypto.getRandomValues\<close> delivers are
  inputs of the model. A seed is truthy unless it is missing or the empty string.
\<close>

record seed_manager =
  currentSeed :: "string option"
  domainSeeds :: "(string \<times> string option) list"

fun map_set :: "('k \<times> 'v) list \<Rightarrow> 'k \<Rightarrow> 'v \<Rightarrow> ('k \<times> 'v) list" where
  "map_set [] k v = [(k, v)]"
| "map_set ((k', v') # m) k v = (if k' = k then (k, v) # m else (k', v') # map_set m k v)"

fun map_delete :: "('k \<times> 'v) list \<Rightarrow> 'k \<Rightarrow> ('k \<times> 'v) list" where
  "map_delete [] k = []"
| "map_delete ((k', v') # m) k = (if k' = k then m else (k', v') # map_delete m k)"

definition map_get :: "('k \<times> 'v option) list \<Rightarrow> 'k \<Rightarrow> 'v option" where
  "map_get m k = (case map_of m k of None \<Rightarrow> None | Some v \<Rightarrow> v)"

definition storeSeedInMemory :: "string \<Rightarrow> seed_manager \<Rightarrow> seed_manager" where
  "storeSeedInMemory domain st =
     (let m = map_set (domainSeeds st) domain (currentSeed st)
      in if length m > 100
         then (case m of [] \<Rightarrow> st\<lparr>domainSeeds := m\<rparr>
                       | (firstKey, _) # _ \<Rightarrow> st\<lparr>domainSeeds := map_delete m firstKey\<rparr>)
         else st\<lparr>domainSeeds := m\<rparr>)"

definition generateSeed :: "string \<Rightarrow> string \<Rightarrow> seed_manager \<Rightarrow> string \<times> seed_manager" where
  "generateSeed domain fresh st =
     (let st1 = st\<lparr>currentSeed := Some fresh\<rparr>;
          st2 = storeSeedInMemory domain st1
      in (fresh, st2))"

definition getSeed :: "string \<Rightarrow> string \<Rightarrow> seed_manager \<Rightarrow> string \<times> seed_manager" where
  "getSeed domain fresh st =
     (case currentSeed st of
        Some s \<Rightarrow>
          (if s \<noteq> [] then (s, st)
           else (case map_get (domainSeeds st) domain of
                   Some t \<Rightarrow> (if t \<noteq> [] then (t, st\<lparr>currentSeed := Some t\<rparr>)
                              else generateSeed domain fresh (st\<lparr>currentSeed := Some t\<rparr>))
                 | None \<Rightarrow> generateSeed domain fresh (st\<lparr>currentSeed := None\<rparr>)))
      | None \<Rightarrow>
          (case map_get (domainSeeds st) domain of
             Some t \<Rightarrow> (if t \<noteq> [] then (t, st\<lparr>currentSeed := Some t\<rparr>)
                        else generateSeed domain fresh (st\<lparr>currentSeed := Some t\<rparr>))
           | None \<Rightarrow> generateSeed domain fresh (st\<lparr>currentSeed := None\<rparr>)))"

definition clearSeed :: "string \<Rightarrow> seed_manager \<Rightarrow> seed_manager" where
  "clearSeed domain st = st\<lparr>currentSeed := None, domainSeeds := map_delete (domainSeeds st) domain\<rparr>"

text \<open>\<^verbatim>\<open>random(index)\<close> as the method of the stateful object: it first calls \<^verbatim>\<open>getSeed()\<close>.\<close>

definition SeedManager_random ::
  "string \<Rightarrow> string \<Rightarrow> nat \<Rightarrow> seed_manager \<Rightarrow> real \<times> seed_manager" where
  "SeedManager_random domain fresh index st =
     (let (seed, st') = getSeed domain fresh st in (random seed index, st'))"

text \<open>A run of calls \<^verbatim>\<open>random(i)\<close> in the given order, returning every result.\<close>

fun random_calls ::
  "string \<Rightarrow> string \<Rightarrow> nat list \<Rightarrow> seed_manager \<Rightarrow> real list \<times> seed_manager" where
  "random_calls domain fresh [] st = ([], st)"
| "random_calls domain fresh (i # is) st =
     (let (r, st1) = SeedManager_random domain fresh i st;
          (rs, st2) = random_calls domain fresh is st1
      in (r # rs, st2))"

text \<open>The lifecycle operations that touch the domain map.\<close>

datatype lifecycle_op =
    GenerateSeed string string
  | GetSeed string string
  | ClearSeed string
  | StoreSeedInMemory string

fun lifecycle_step :: "lifecycle_op \<Rightarrow> seed_manager \<Rightarrow> seed_manager" where
  "lifecycle_step (GenerateSeed domain fresh) st = snd (generateSeed domain fresh st)"
| "lifecycle_step (GetSeed domain fresh) st = snd (getSeed domain fresh st)"
| "lifecycle_step (ClearSeed domain) st = clearSeed domain st"
| "lifecycle_step (StoreSeedInMemory domain) st = storeSeedInMemory domain st"

definition initial_seed_manager :: seed_manager where
  "initial_seed_manager = \<lparr>currentSeed = None, domainSeeds = []\<rparr>"

section \<open>SpoofingEngine\<close>

text \<open>
  An archetype of the catalog, with the fields that the functions below read. An object
  with string keys (\<^verbatim>\<open>os\<close>, \<^verbatim>\<open>hardware.cpu\<close>) is the list of its entries in the order that
  \<^verbatim>\<open>Object.keys\<close> and \<^verbatim>\<open>Object.values\<close> enumerate them. A field that the catalog may leave
  out is an option; \<open>arch_cpu\<close> is \<open>None\<close> when \<^verbatim>\<open>hardware\<close> or \<^verbatim>\<open>hardware.cpu\<close> is absent.
\<close>

record archetype =
  arch_name :: string
  arch_weight :: "real option"
  arch_platform :: "string option"
  arch_os :: "(string \<times> real) list option"
  arch_cpu :: "(string \<times> real) list option"

record os_profile =
  os_name :: "string jsval"
  os_platform :: "string option"

record hardware_profile =
  hw_cpu :: "string jsval"
  hw_hardwareConcurrency :: "nat jsval"

record navigator_profile =
  nav_platform :: "string option"
  nav_hardwareConcurrency :: nat
  nav_vendor :: string

record profile =
  p_seed :: string
  p_archetype :: string
  p_os :: os_profile
  p_hardware :: hardware_profile
  p_navigator :: navigator_profile

text \<open>\<^verbatim>\<open>a.weight || 0.1\<close>: a missing or zero weight counts as 0.1.\<close>

definition selectArchetype :: "string \<Rightarrow> archetype list \<Rightarrow> archetype jsval" where
  "selectArchetype seed archetypes =
     (let weights = map (\<lambda>a. case arch_weight a of
                               None \<Rightarrow> 0.1
                             | Some w \<Rightarrow> if w = 0 then 0.1 else w) archetypes
      in randomWeightedChoice seed archetypes weights 0)"

definition selectOS :: "string \<Rightarrow> archetype \<Rightarrow> os_profile" where
  "selectOS seed archetype =
     (let os = (case arch_os archetype of None \<Rightarrow> [] | Some t \<Rightarrow> t);
          osOptions = map fst os;
          osWeights = map snd os;
          osName = randomWeightedChoice seed osOptions osWeights 1
      in \<lparr>os_name = osName, os_platform = arch_platform archetype\<rparr>)"

definition getCoreCount :: "string \<Rightarrow> string jsval \<Rightarrow> nat jsval" where
  "getCoreCount seed cpu =
     (case cpu of
        Undefined \<Rightarrow> Val 4
      | Null \<Rightarrow> Val 4
      | Val c \<Rightarrow>
          if c = [] then Val 4
          else let cpuLower = toLowerCase c in
            if str_includes cpuLower ''i9'' \<or> str_includes cpuLower ''ryzen 9''
               \<or> str_includes cpuLower ''threadripper''
            then randomChoice seed [16, 20, 24, 32] 10
            else if str_includes cpuLower ''i7'' \<or> str_includes cpuLower ''ryzen 7''
            then randomChoice seed [8, 12, 16] 11
            else if str_includes cpuLower ''i5'' \<or> str_includes cpuLower ''ryzen 5''
            then randomChoice seed [6, 8, 12] 12
            else if str_includes cpuLower ''i3'' \<or> str_includes cpuLower ''ryzen 3''
            then randomChoice seed [4, 6] 13
            else if str_includes cpuLower ''m1'' \<or> str_includes cpuLower ''m2''
                    \<or> str_includes cpuLower ''m3''
            then Val 8
            else if str_includes cpuLower ''celeron'' \<or> str_includes cpuLower ''pentium''
            then randomChoice seed [2, 4] 14
            else Val 4)"

text \<open>
  \<^verbatim>\<open>selectHardware\<close>, its CPU part: without a CPU table neither \<^verbatim>\<open>hardware.cpu\<close> nor
  \<^verbatim>\<open>hardware.hardwareConcurrency\<close> is set.
\<close>

definition selectHardware :: "string \<Rightarrow> archetype \<Rightarrow> hardware_profile" where
  "selectHardware seed archetype =
     (case arch_cpu archetype of
        None \<Rightarrow> \<lparr>hw_cpu = Undefined, hw_hardwareConcurrency = Undefined\<rparr>
      | Some t \<Rightarrow>
          let cpuOptions = map fst t;
              cpuWeights = map snd t;
              cpu = randomWeightedChoice seed cpuOptions cpuWeights 2
          in \<lparr>hw_cpu = cpu, hw_hardwareConcurrency = getCoreCount seed cpu\<rparr>)"

text \<open>\<^verbatim>\<open>osName?.includes('macOS')\<close> is falsy for a missing name.\<close>

definition getVendor :: "string jsval \<Rightarrow> string" where
  "getVendor osName =
     (case osName of
        Val n \<Rightarrow> if str_includes n ''macOS'' then ''Apple Computer, Inc.'' else ''Google Inc.''
      | _ \<Rightarrow> ''Google Inc.'')"

text \<open>
  \<^verbatim>\<open>buildNavigatorProfile\<close>, its platform, core-count and vendor fields.
  \<^verbatim>\<open>profile.hardware.hardwareConcurrency || 4\<close> is 4 for a missing or zero count.
\<close>

definition buildNavigatorProfile :: "os_profile \<Rightarrow> hardware_profile \<Rightarrow> navigator_profile" where
  "buildNavigatorProfile os hardware =
     \<lparr>nav_platform = os_platform os,
      nav_hardwareConcurrency =
        (case hw_hardwareConcurrency hardware of
           Val n \<Rightarrow> if n = 0 then 4 else n
         | _ \<Rightarrow> 4),
      nav_vendor = getVendor (os_name os)\<rparr>"

text \<open>
  \<^verbatim>\<open>generateProfile\<close> for the seed that \<^verbatim>\<open>getSeed()\<close> returned. On an empty catalog
  \<^verbatim>\<open>selectArchetype\<close> returns \<^verbatim>\<open>null\<close> and reading \<^verbatim>\<open>archetype.name\<close> throws.
\<close>

definition generateProfile :: "string \<Rightarrow> archetype list \<Rightarrow> error + profile" where
  "generateProfile seed profiles =
     (case selectArchetype seed profiles of
        Val archetype \<Rightarrow>
          let os = selectOS seed archetype;
              hardware = selectHardware seed archetype
          in Inr \<lparr>p_seed = seed,
                  p_archetype = arch_name archetype,
                  p_os = os,
                  p_hardware = hardware,
                  p_navigator = buildNavigatorProfile os hardware\<rparr>
      | _ \<Rightarrow> Inl TypeError)"

definition getDefaultProfiles :: "archetype list" where
  "getDefaultProfiles =
     [\<lparr>arch_name = ''Default Windows PC'',
       arch_weight = Some 1,
       arch_platform = Some ''Win32'',
       arch_os = Some [(''Windows 11'', 100)],
       arch_cpu = Some [(''Intel Core i5'', 100)]\<rparr>]"

text \<open>Catalogs and seeds used as concrete inputs below.\<close>

definition seed_a :: string where
  "seed_a = ''a1b2c3d4e5f60718293a4b5c6d7e8f90a1b2c3d4e5f60718293a4b5c6d7e8f90''"

definition mac_platform_catalog :: "archetype list" where
  "mac_platform_catalog =
     [\<lparr>arch_name = ''Office Desktop'',
       arch_weight = Some 1,
       arch_platform = Some ''MacIntel'',
       arch_os = Some [(''Windows 11'', 100)],
       arch_cpu = Some [(''Intel Core i5'', 100)]\<rparr>]"

definition mixed_tier_catalog :: "archetype list" where
  "mixed_tier_catalog =
     [\<lparr>arch_name = ''Default Windows PC'',
       arch_weight = Some 1,
       arch_platform = Some ''Win32'',
       arch_os = Some [(''Windows 11'', 100)],
       arch_cpu = Some [(''Intel Core i5/i7/i9'', 100)]\<rparr>]"

text \<open>The profile that \<^verbatim>\<open>generateProfile\<close> builds from the built-in catalog for \<open>seed_a\<close>.\<close>

definition default_profile_a :: profile where
  "default_profile_a =
     \<lparr>p_seed = seed_a, p_archetype = ''Default Windows PC'',
      p_os = \<lparr>os_name = Val ''Windows 11'', os_platform = Some ''Win32''\<rparr>,
      p_hardware = \<lparr>hw_cpu = Val ''Intel Core i5'', hw_hardwareConcurrency = Val 8\<rparr>,
      p_navigator = \<lparr>nav_platform = Some ''Win32'', nav_hardwareConcurrency = 8,
                     nav_vendor = ''Google Inc.''\<rparr>\<rparr>"

text \<open>A seed manager whose map is full: one hundred hosts, all holding a seed.\<close>

definition full_manager :: seed_manager where
  "full_manager = \<lparr>currentSeed = Some ''5eed'',
                    domainSeeds = map (\<lambda>n. (''host'' @ toString10 n, Some ''5eed'')) [0..<100]\<rparr>"

section \<open>Double arithmetic\<close>

text \<open>
  A JavaScript number is an IEEE 754 double, and the result of \<^verbatim>\<open>+\<close>, \<^verbatim>\<open>-\<close>, \<^verbatim>\<open>*\<close>, \<^verbatim>\<open>/\<close>
  and \<^verbatim>\<open>Math.sqrt\<close> is the exact result rounded to the nearest double, ties to the even
  significand; so is the value of a decimal literal. \<open>fl\<close> is that rounding, on reals:
  \<open>binade x\<close> is the exponent \<open>e\<close> with \<open>2^e \<le> x < 2^(e+1)\<close>, and a double of that binade is
  an integer multiple of \<open>2^(e-52)\<close>. The exponent is not bounded: the numbers of the
  canvas code are sums, products and one square root of bytes and of constants between
  0.001 and 255, far from overflow and from the subnormal range. The two zeros are not
  told apart: nothing in the code divides by one or takes its sign. \<^verbatim>\<open>NaN\<close> is \<open>None\<close>
  where it can arise.
\<close>

definition binade :: "real \<Rightarrow> int" where
  "binade x = (if 1 \<le> x then bitlen \<lfloor>x\<rfloor> - 1 else - bitlen (\<lceil>1 / x\<rceil> - 1))"

definition round_ties_even :: "real \<Rightarrow> int" where
  "round_ties_even x =
     (let f = \<lfloor>x\<rfloor> in
        if x - real_of_int f < 1 / 2 then f
        else if 1 / 2 < x - real_of_int f then f + 1
        else if even f then f else f + 1)"

definition fl :: "real \<Rightarrow> real" where
  "fl x = (if x = 0 then 0
           else let ulp = 2 powi (binade \<bar>x\<bar> - 52)
                in real_of_int (round_ties_even (x / ulp)) * ulp)"

section \<open>CanvasInterceptor\<close>

text \<open>
  An \<^verbatim>\<open>ImageData\<close> object: \<^verbatim>\<open>width\<close> and \<^verbatim>\<open>height\<close> are integers, and \<^verbatim>\<open>data\<close> is a
  \<^verbatim>\<open>Uint8ClampedArray\<close>, a list of bytes. Nothing ties its length to
  \<^verbatim>\<open>width * height * 4\<close>. A read outside a typed array is \<^verbatim>\<open>undefined\<close>, a write outside
  is ignored, and a write within it stores the number clamped to 0..255 and rounded to
  the nearest integer, ties to even.
\<close>

record image_data =
  img_width :: int
  img_height :: int
  img_data :: "8 word list"

definition typed_get :: "8 word list \<Rightarrow> int \<Rightarrow> 8 word option" where
  "typed_get d i = (if 0 \<le> i \<and> i < int (length d) then Some (d ! nat i) else None)"

definition typed_set :: "8 word list \<Rightarrow> int \<Rightarrow> 8 word \<Rightarrow> 8 word list" where
  "typed_set d i v = (if 0 \<le> i \<and> i < int (length d) then d[nat i := v] else d)"

definition toUint8Clamp :: "real \<Rightarrow> 8 word" where
  "toUint8Clamp v =
     (if v \<le> 0 then 0
      else if 255 \<le> v then 255
      else let f = \<lfloor>v\<rfloor> in
        if real_of_int f + 1 / 2 < v then word_of_int (f + 1)
        else if v < real_of_int f + 1 / 2 then word_of_int f
        else if even f then word_of_int f else word_of_int (f + 1))"

text \<open>
  The interceptor object after \<^verbatim>\<open>init(profile)\<close>: the seed, rendered as a string by the
  template literal of \<^verbatim>\<open>seededRandom\<close>, and the noise level, the double written
  \<^verbatim>\<open>0.002\<close> unless reassigned.
\<close>

record canvas_interceptor =
  ci_seed :: string
  ci_noiseLevel :: real

definition CanvasInterceptor :: "string \<Rightarrow> canvas_interceptor" where
  "CanvasInterceptor seed = \<lparr>ci_seed = seed, ci_noiseLevel = fl 0.002\<rparr>"

text \<open>
  \<^verbatim>\<open>hashCode\<close>: \<^verbatim>\<open>hash = ((hash << 5) - hash) + char; hash = hash & hash\<close> keeps the low 32
  bits, read as a signed integer; the result is its absolute value.
\<close>

fun hashCode_loop :: "32 word \<Rightarrow> string \<Rightarrow> 32 word" where
  "hashCode_loop h [] = h"
| "hashCode_loop h (c # cs) = hashCode_loop ((push_bit 5 h - h) + of_char c) cs"

definition hashCode :: "string \<Rightarrow> int" where
  "hashCode str = \<bar>sint (hashCode_loop 0 str)\<bar>"

text \<open>
  \<^verbatim>\<open>seededRandom(x, y, channel)\<close> for the loop counters of \<^verbatim>\<open>applyEdgeNoise\<close>, which are
  never negative: \<^verbatim>\<open>(hash % 1000) / 1000\<close> is one double division.
\<close>

definition seededRandom :: "canvas_interceptor \<Rightarrow> int \<Rightarrow> int \<Rightarrow> int \<Rightarrow> real" where
  "seededRandom self x y channel =
     (let hash = hashCode (ci_seed self @ ''-'' @ toString10 (nat x) @ ''-'' @ toString10 (nat y)
                           @ ''-'' @ toString10 (nat channel))
      in fl (real_of_int (hash mod 1000) / 1000))"

subsection \<open>Edge detection\<close>

definition sobelX :: "real list" where
  "sobelX = [-1, 0, 1, -2, 0, 2, -1, 0, 1]"

definition sobelY :: "real list" where
  "sobelY = [-1, -2, -1, 0, 0, 0, 1, 2, 1]"

text \<open>
  \<^verbatim>\<open>data[idx] * 0.299 + data[idx + 1] * 0.587 + data[idx + 2] * 0.114\<close>, the luminance of
  the pixel that starts at byte \<open>idx\<close>: three double products and two double sums, left
  to right, with the doubles that the three literals denote. \<open>None\<close> is \<^verbatim>\<open>NaN\<close>, the
  result when one of the three reads is \<^verbatim>\<open>undefined\<close>.
\<close>

definition gray_at :: "8 word list \<Rightarrow> int \<Rightarrow> real option" where
  "gray_at d idx =
     (case (typed_get d idx, typed_get d (idx + 1), typed_get d (idx + 2)) of
        (Some r, Some g, Some b) \<Rightarrow>
          Some (fl (fl (fl (real (unat r) * fl 0.299) + fl (real (unat g) * fl 0.587))
                    + fl (real (unat b) * fl 0.114)))
      | _ \<Rightarrow> None)"

text \<open>
  One turn of the kernel loops at offset \<open>(ky, kx)\<close>:
  \<^verbatim>\<open>pixelX += gray * sobelX[kernelIdx]; pixelY += gray * sobelY[kernelIdx]\<close>.
  \<^verbatim>\<open>NaN\<close> absorbs every later addition.
\<close>

definition kernel_step ::
  "image_data \<Rightarrow> int \<Rightarrow> int \<Rightarrow> (real \<times> real) option \<Rightarrow> int \<times> int \<Rightarrow> (real \<times> real) option" where
  "kernel_step imageData x y acc k =
     (case k of (ky, kx) \<Rightarrow>
        let idx = ((y + ky) * img_width imageData + (x + kx)) * 4;
            kernelIdx = nat ((ky + 1) * 3 + (kx + 1))
        in case acc of
             None \<Rightarrow> None
           | Some (pixelX, pixelY) \<Rightarrow>
               (case gray_at (img_data imageData) idx of
                  None \<Rightarrow> None
                | Some gray \<Rightarrow> Some (fl (pixelX + fl (gray * sobelX ! kernelIdx)),
                                     fl (pixelY + fl (gray * sobelY ! kernelIdx)))))"

definition kernel_offsets :: "(int \<times> int) list" where
  "kernel_offsets = List.product [-1, 0, 1] [-1, 0, 1]"

text \<open>
  \<^verbatim>\<open>Math.sqrt(pixelX * pixelX + pixelY * pixelY)\<close>, the gradient magnitude at a pixel:
  two double products, a double sum and the correctly rounded root. \<open>None\<close> is \<^verbatim>\<open>NaN\<close>.
\<close>

definition magnitude :: "image_data \<Rightarrow> int \<Rightarrow> int \<Rightarrow> real option" where
  "magnitude imageData x y =
     (case foldl (kernel_step imageData x y) (Some (0, 0)) kernel_offsets of
        None \<Rightarrow> None
      | Some (pixelX, pixelY) \<Rightarrow>
          Some (fl (sqrt (fl (fl (pixelX * pixelX) + fl (pixelY * pixelY))))))"

text \<open>\<^verbatim>\<open>magnitude > 30 ? 1 : 0\<close>; a comparison with \<^verbatim>\<open>NaN\<close> is false.\<close>

definition edge_value :: "image_data \<Rightarrow> int \<Rightarrow> int \<Rightarrow> 8 word" where
  "edge_value imageData x y =
     (case magnitude imageData x y of
        None \<Rightarrow> 0
      | Some m \<Rightarrow> if m > 30 then 1 else 0)"

definition edge_step :: "image_data \<Rightarrow> 8 word list \<Rightarrow> int \<times> int \<Rightarrow> 8 word list" where
  "edge_step imageData edges p =
     (case p of (y, x) \<Rightarrow>
        typed_set edges (y * img_width imageData + x) (edge_value imageData x y))"

text \<open>
  \<^verbatim>\<open>new Uint8ClampedArray(n)\<close> for an integer \<open>n\<close>: an array of \<open>n\<close> zeros, or a
  \<^verbatim>\<open>RangeError\<close> when \<open>n\<close> is negative, exceeds \<open>2^53 - 1\<close>, or exceeds what the engine can
  allocate. The engine's bound is \<open>limit\<close>.
\<close>

definition new_Uint8ClampedArray :: "nat \<Rightarrow> int \<Rightarrow> error + 8 word list" where
  "new_Uint8ClampedArray limit n =
     (if 0 \<le> n \<and> n \<le> 2 ^ 53 - 1 \<and> n \<le> int limit
      then Inr (replicate (nat n) 0) else Inl RangeError)"

text \<open>
  \<^verbatim>\<open>detectEdges\<close>: the edge map is allocated with \<^verbatim>\<open>width * height\<close> zeros and the loops
  visit the pixels \<open>1 \<le> y < height - 1\<close>, \<open>1 \<le> x < width - 1\<close>, row by row.
\<close>

definition detectEdges :: "nat \<Rightarrow> image_data \<Rightarrow> error + 8 word list" where
  "detectEdges limit imageData =
     (let width = img_width imageData;
          height = img_height imageData
      in case new_Uint8ClampedArray limit (width * height) of
           Inl e \<Rightarrow> Inl e
         | Inr edges \<Rightarrow>
             Inr (foldl (edge_step imageData) edges
                    (List.product [1..height - 2] [1..width - 2])))"

subsection \<open>Noise on edge pixels\<close>

text \<open>
  The assignment of the innermost loop of \<^verbatim>\<open>applyEdgeNoise\<close> for one channel:
  \<^verbatim>\<open>noise = (seededRandom(x, y, channel) - 0.5) * 255 * noiseLevel\<close> is a double
  difference and two double products, and the sum with the byte is a double sum.
  Outside the data the read is \<^verbatim>\<open>undefined\<close>, the sum \<^verbatim>\<open>NaN\<close>, and the write is ignored.
\<close>

definition channel_step ::
  "canvas_interceptor \<Rightarrow> int \<Rightarrow> int \<Rightarrow> int \<Rightarrow> 8 word list \<Rightarrow> int \<Rightarrow> 8 word list" where
  "channel_step self x y pixelIdx d channel =
     (let noise = fl (fl (fl (seededRandom self x y channel - 0.5) * 255) * ci_noiseLevel self)
      in case typed_get d (pixelIdx + channel) of
           None \<Rightarrow> d
         | Some b \<Rightarrow>
             typed_set d (pixelIdx + channel)
               (toUint8Clamp (max 0 (min 255 (fl (real (unat b) + noise))))))"

definition pixel_step ::
  "canvas_interceptor \<Rightarrow> int \<Rightarrow> 8 word list \<Rightarrow> 8 word list \<Rightarrow> int \<times> int \<Rightarrow> 8 word list" where
  "pixel_step self width edges d p =
     (case p of (y, x) \<Rightarrow>
        let idx = y * width + x;
            pixelIdx = idx * 4
        in if typed_get edges idx = Some 1
           then foldl (channel_step self x y pixelIdx) d [0, 1, 2]
           else d)"

text \<open>
  The bytes of \<^verbatim>\<open>imageData.data\<close> when the loops of \<^verbatim>\<open>applyEdgeNoise\<close> have run over
  \<open>0 \<le> y < height\<close>, \<open>0 \<le> x < width\<close> with the edge map \<open>edges\<close>.
\<close>

definition noise_pass :: "canvas_interceptor \<Rightarrow> 8 word list \<Rightarrow> image_data \<Rightarrow> 8 word list" where
  "noise_pass self edges imageData =
     (let d = img_data imageData;
          width = img_width imageData;
          height = img_height imageData
      in foldl (pixel_step self width edges) d (List.product [0..height - 1] [0..width - 1]))"

text \<open>
  The world in which \<^verbatim>\<open>applyEdgeNoise\<close> runs: the objects it can reach by reference, the
  console, and the longest typed array that the engine allocates.
  \<^verbatim>\<open>applyEdgeNoise(imageData)\<close> takes a reference; when it does not point to an object,
  reading \<^verbatim>\<open>imageData.width\<close> throws. A \<^verbatim>\<open>RangeError\<close> of the allocation in
  \<^verbatim>\<open>detectEdges\<close> is not caught and leaves the call before anything is written.
  Otherwise the function writes into the object it was given and returns the reference
  it was given. The result is the completion of the call, thrown or returned, with the
  world after it.
\<close>

record world =
  heap :: "nat \<Rightarrow> image_data option"
  console :: "string list"
  max_array_length :: nat

definition applyEdgeNoise :: "canvas_interceptor \<Rightarrow> nat \<Rightarrow> world \<Rightarrow> (error + nat) \<times> world" where
  "applyEdgeNoise self ref w =
     (case heap w ref of
        None \<Rightarrow> (Inl TypeError, w)
      | Some imageData \<Rightarrow>
          (case detectEdges (max_array_length w) imageData of
             Inl e \<Rightarrow> (Inl e, w)
           | Inr edges \<Rightarrow>
               (Inr ref,
                w\<lparr>heap := (heap w)(ref \<mapsto>
                      imageData\<lparr>img_data := noise_pass self edges imageData\<rparr>)\<rparr>)))"

text \<open>The pixel that owns byte \<open>j\<close>, its coordinates, and the interior of the image.\<close>

definition pixel_x :: "image_data \<Rightarrow> nat \<Rightarrow> int" where
  "pixel_x imageData j = (int j div 4) mod img_width imageData"

definition pixel_y :: "image_data \<Rightarrow> nat \<Rightarrow> int" where
  "pixel_y imageData j = (int j div 4) div img_width imageData"

definition interior :: "image_data \<Rightarrow> int \<Rightarrow> int \<Rightarrow> bool" where
  "interior imageData x y =
     (1 \<le> x \<and> x < img_width imageData - 1 \<and> 1 \<le> y \<and> y < img_height imageData - 1)"

text \<open>
  A buffer is well formed when its data has \<open>width * height * 4\<close> bytes, and an array
  of \<open>n\<close> entries fits the engine when \<^verbatim>\<open>new Uint8ClampedArray(n)\<close> does not throw.
\<close>

definition well_formed :: "image_data \<Rightarrow> bool" where
  "well_formed imageData =
     (img_width imageData * img_height imageData * 4 = int (length (img_data imageData)))"

definition fits :: "world \<Rightarrow> int \<Rightarrow> bool" where
  "fits w n = (0 \<le> n \<and> n \<le> 2 ^ 53 - 1 \<and> n \<le> int (max_array_length w))"

text \<open>
  A 3 by 3 image, black on the left and white on the right; the same image with its
  last byte cut off; an image that declares \<open>2^40\<close> by \<open>2^40\<close> pixels and has no data; and
  a dark image whose gradient at the centre is 30 in exact arithmetic.
\<close>

definition black :: "8 word list" where
  "black = [0, 0, 0, 255]"

definition white :: "8 word list" where
  "white = [255, 255, 255, 255]"

definition step_image :: image_data where
  "step_image = \<lparr>img_width = 3, img_height = 3,
                  img_data = concat [black, black, white, black, black, white, black, black, white]\<rparr>"

definition short_image :: image_data where
  "short_image = \<lparr>img_width = 3, img_height = 3, img_data = butlast (img_data step_image)\<rparr>"

definition huge_image :: image_data where
  "huge_image = \<lparr>img_width = 2 ^ 40, img_height = 2 ^ 40, img_data = []\<rparr>"

definition dim_image :: image_data where
  "dim_image = \<lparr>img_width = 3, img_height = 3,
                 img_data = concat [black, black, [18, 18, 18, 255],
                                    [11, 11, 11, 255], black, [14, 14, 14, 255],
                                    black, black, black]\<rparr>"

definition world_of :: "image_data \<Rightarrow> world" where
  "world_of imageData =
     \<lparr>heap = (\<lambda>r. None)(0 \<mapsto> imageData), console = [], max_array_length = 2 ^ 32 - 1\<rparr>"

text \<open>An interceptor whose noise level has been raised to 0.5.\<close>

definition loud_interceptor :: canvas_interceptor where
  "loud_interceptor = \<lparr>ci_seed = seed_a, ci_noiseLevel = 0.5\<rparr>"

section \<open>Properties of the random field\<close>

lemma hexval_hex_char: "d < 16 \<Longrightarrow> hexval (hex_char d) = Some d"
  by (auto simp: hexval_def hex_char_def Let_def)

lemma parseInt16_loop_append:
  "\<forall>c \<in> set xs. hexval c \<noteq> None \<Longrightarrow>
   parseInt16_loop acc (xs @ ys) = parseInt16_loop (parseInt16_loop acc xs) ys"
  by (induction xs arbitrary: acc) (auto split: option.splits)

lemma toString16_hex: "\<forall>c \<in> set (toString16 n). hexval c \<noteq> None"
proof (induction n rule: toString16.induct)
  case (1 n)
  show ?case
  proof (cases "n < 16")
    case True
    then show ?thesis by (simp add: toString16.simps [of n] hexval_hex_char)
  next
    case False
    have "hexval (hex_char (n mod 16)) \<noteq> None" by (simp add: hexval_hex_char)
    with False 1 show ?thesis by (simp add: toString16.simps [of n])
  qed
qed

lemma parseInt16_loop_toString16: "parseInt16_loop 0 (toString16 n) = n"
proof (induction n rule: toString16.induct)
  case (1 n)
  show ?case
  proof (cases "n < 16")
    case True
    then show ?thesis by (simp add: toString16.simps [of n] hexval_hex_char)
  next
    case False
    with 1 have ih: "parseInt16_loop 0 (toString16 (n div 16)) = n div 16" by simp
    have "parseInt16_loop 0 (toString16 n)
          = parseInt16_loop (n div 16) [hex_char (n mod 16)]"
      using False ih toString16_hex [of "n div 16"]
      by (simp add: toString16.simps [of n] parseInt16_loop_append)
    also have "\<dots> = n div 16 * 16 + n mod 16" by (simp add: hexval_hex_char)
    finally show ?thesis by simp
  qed
qed

lemma parseInt16_loop_zeros:
  "parseInt16_loop 0 (replicate k (CHR ''0'') @ s) = parseInt16_loop 0 s"
  by (induction k) (auto simp: hexval_def)

lemma length_toString16: "0 < k \<Longrightarrow> n < 16 ^ k \<Longrightarrow> length (toString16 n) \<le> k"
proof (induction n arbitrary: k rule: toString16.induct)
  case (1 n)
  show ?case
  proof (cases "n < 16")
    case True
    with 1(2) show ?thesis by (simp add: toString16.simps [of n])
  next
    case False
    with 1(2,3) have k2: "0 < k - 1"
      by (cases k; cases "k - 1") auto
    from 1(2,3) have "n < 16 * 16 ^ (k - 1)" by (cases k) auto
    then have "n div 16 < 16 ^ (k - 1)" by (simp add: less_mult_imp_div_less mult.commute)
    with 1(1) [OF False k2] have "length (toString16 (n div 16)) \<le> k - 1" by simp
    with False k2 show ?thesis by (simp add: toString16.simps [of n])
  qed
qed

lemma parseInt16_hash:
  "parseInt16 (substr (hash str) 0 8) = unat (hash_loop FNV_OFFSET_BASIS str)"
proof -
  define w where "w = hash_loop FNV_OFFSET_BASIS str"
  have "unat w < 2 ^ 32" using unsigned_less [of w] by simp
  then have "unat w < 16 ^ 8" by simp
  then have len: "length (toString16 (unat w)) \<le> 8"
    by (intro length_toString16) simp_all
  then have "substr (hash str) 0 8 = replicate (8 - length (toString16 (unat w))) (CHR ''0'') @ toString16 (unat w)"
    by (simp add: substr_def hash_def padStart_def w_def)
  then show ?thesis
    by (simp add: parseInt16_def parseInt16_loop_zeros parseInt16_loop_toString16 w_def)
qed

lemma random_eq:
  "random seed index
   = real (unat (hash_loop FNV_OFFSET_BASIS (seed @ ''-'' @ toString10 index))) / 4294967295"
  by (simp add: random_def Let_def parseInt16_hash)

lemma random_nonneg: "0 \<le> random seed index"
  unfolding random_eq by (intro divide_nonneg_nonneg of_nat_0_le_iff) simp

lemma random_le_1: "random seed index \<le> 1"
proof -
  define n where "n = unat (hash_loop FNV_OFFSET_BASIS (seed @ ''-'' @ toString10 index))"
  have "n < 2 ^ 32"
    unfolding n_def
    using unsigned_less [of "hash_loop FNV_OFFSET_BASIS (seed @ ''-'' @ toString10 index)"]
    by simp
  then have "n \<le> 4294967295" by simp
  then have "real n \<le> 4294967295" by linarith
  then have "real n / 4294967295 \<le> 1" by simp
  then show ?thesis unfolding random_eq n_def .
qed

lemma random_lt_1_iff:
  "random seed index < 1
   \<longleftrightarrow> hash_loop FNV_OFFSET_BASIS (seed @ ''-'' @ toString10 index) \<noteq> 4294967295"
proof -
  define w where "w = hash_loop FNV_OFFSET_BASIS (seed @ ''-'' @ toString10 index)"
  have "real (unat w) / 4294967295 < 1 \<longleftrightarrow> unat w < 4294967295"
    by (simp del: of_nat_unat)
  also have "\<dots> \<longleftrightarrow> unat w \<noteq> 4294967295"
    using unsigned_less [of w, where ?'a = nat] by auto
  also have "\<dots> \<longleftrightarrow> w \<noteq> 4294967295"
  proof -
    have "unat (4294967295 :: 32 word) = 4294967295" by simp
    then show ?thesis by (metis word_unat_eq_iff)
  qed
  finally show ?thesis unfolding random_eq w_def .
qed

lemma toString10_12: "toString10 12 = ''12''"
  by code_simp

lemma hash_loop_all_ones:
  "hash_loop FNV_OFFSET_BASIS
     ''a1b2c3d4e5f60718293a4b5c6d7e8f90a1b2c3d4e5f60718293a4bcc25c02719-12'' = 4294967295"
  by code_simp

lemma random_all_ones:
  "random ''a1b2c3d4e5f60718293a4b5c6d7e8f90a1b2c3d4e5f60718293a4bcc25c02719'' 12 = 1"
proof -
  have key: "''a1b2c3d4e5f60718293a4b5c6d7e8f90a1b2c3d4e5f60718293a4bcc25c02719'' @ ''-'' @ toString10 12
     = ''a1b2c3d4e5f60718293a4b5c6d7e8f90a1b2c3d4e5f60718293a4bcc25c02719-12''"
    by (simp add: toString10_12)
  show ?thesis
    unfolding random_eq key hash_loop_all_ones by simp
qed

text \<open>
  \<^bold>\<open>C1.\<close> The claim: for every seed and index, \<^verbatim>\<open>random\<close> is the unsigned FNV-1a hash
  of the key divided by \<open>2^32\<close>, hence at least 0 and strictly below 1. The code divides by
  \<^verbatim>\<open>0xFFFFFFFF\<close>, which is \<open>2^32 - 1\<close>: for the 64-digit seed below the key
  \<^verbatim>\<open>seed-12\<close> hashes to \<^verbatim>\<open>ffffffff\<close> and \<^verbatim>\<open>random(12)\<close> is exactly 1.
\<close>

theorem random_reaches_one:
  "\<not> random ''a1b2c3d4e5f60718293a4b5c6d7e8f90a1b2c3d4e5f60718293a4bcc25c02719'' 12 < 1"
  by (simp add: random_all_ones)

section \<open>Call-order independence\<close>

lemma getSeed_fixed: "currentSeed st = Some s \<Longrightarrow> s \<noteq> [] \<Longrightarrow> getSeed d f st = (s, st)"
  by (simp add: getSeed_def)

lemma random_calls_fixed:
  "currentSeed st = Some s \<Longrightarrow> s \<noteq> [] \<Longrightarrow>
   random_calls d f is st = (map (random s) is, st)"
  by (induction "is") (simp_all add: SeedManager_random_def getSeed_fixed)

text \<open>
  \<^bold>\<open>C7.\<close> For a fixed seed \<open>s\<close> held by the seed manager, every call \<^verbatim>\<open>random(i)\<close>
  returns the value that depends on \<open>(s, i)\<close> alone and leaves the manager as it was. So
  two runs with the same seed, making their calls in any two orders (from any two manager
  states, on any two pages), return equal values wherever they ask for the same index.
\<close>

theorem random_call_order_independent:
  assumes "currentSeed st1 = Some s" and "currentSeed st2 = Some s" and "s \<noteq> []"
  shows "random_calls d1 f1 is1 st1 = (map (random s) is1, st1)
     \<and> random_calls d2 f2 is2 st2 = (map (random s) is2, st2)
     \<and> (\<forall>j k. j < length is1 \<and> k < length is2 \<and> is1 ! j = is2 ! k \<longrightarrow>
           fst (random_calls d1 f1 is1 st1) ! j = fst (random_calls d2 f2 is2 st2) ! k)"
  using assms by (simp add: random_calls_fixed)

theorem random_call_order_independent_witness:
  "currentSeed \<lparr>currentSeed = Some ''ab'', domainSeeds = []\<rparr> = Some ''ab''
   \<and> currentSeed \<lparr>currentSeed = Some ''ab'', domainSeeds = [(''a.com'', Some ''ab'')]\<rparr> = Some ''ab''
   \<and> ''ab'' \<noteq> []
   \<and> (0::nat) < length [5, 1 :: nat] \<and> (1::nat) < length [1, 5 :: nat] \<and> [5, 1 :: nat] ! 0 = [1, 5] ! 1
   \<and> fst (random_calls ''a.com'' ''c0'' [5, 1]
            \<lparr>currentSeed = Some ''ab'', domainSeeds = []\<rparr>) ! 0
     = fst (random_calls ''b.org'' ''c1'' [1, 5]
            \<lparr>currentSeed = Some ''ab'', domainSeeds = [(''a.com'', Some ''ab'')]\<rparr>) ! 1"
proof -
  have a: "currentSeed \<lparr>currentSeed = Some ''ab'', domainSeeds = []\<rparr> = Some ''ab''"
    by simp
  have b: "currentSeed \<lparr>currentSeed = Some ''ab'', domainSeeds = [(''a.com'', Some ''ab'')]\<rparr>
           = Some ''ab''"
    by simp
  have c: "''ab'' \<noteq> []" by simp
  have d: "(0::nat) < length [5, 1 :: nat] \<and> (1::nat) < length [1, 5 :: nat]
           \<and> [5, 1 :: nat] ! 0 = [1, 5] ! 1"
    by simp
  from random_call_order_independent [OF a b c, of "''a.com''" "''c0''" "[5, 1]"
      "''b.org''" "''c1''" "[1, 5]"]
  have "\<forall>j k. j < length [5, 1 :: nat] \<and> k < length [1, 5 :: nat] \<and> [5, 1 :: nat] ! j = [1, 5] ! k \<longrightarrow>
           fst (random_calls ''a.com'' ''c0'' [5, 1]
                  \<lparr>currentSeed = Some ''ab'', domainSeeds = []\<rparr>) ! j
           = fst (random_calls ''b.org'' ''c1'' [1, 5]
                  \<lparr>currentSeed = Some ''ab'', domainSeeds = [(''a.com'', Some ''ab'')]\<rparr>) ! k"
    by blast
  with d have "fst (random_calls ''a.com'' ''c0'' [5, 1]
                  \<lparr>currentSeed = Some ''ab'', domainSeeds = []\<rparr>) ! 0
           = fst (random_calls ''b.org'' ''c1'' [1, 5]
                  \<lparr>currentSeed = Some ''ab'', domainSeeds = [(''a.com'', Some ''ab'')]\<rparr>) ! 1"
    by blast
  with a b c d show ?thesis by blast
qed

section \<open>The bounded domain map\<close>

lemma length_map_set: "length (map_set m k v) \<le> Suc (length m)"
  by (induction m) auto

lemma map_set_new: "k \<notin> fst ` set m \<Longrightarrow> map_set m k v = m @ [(k, v)]"
  by (induction m) auto

lemma length_map_delete: "length (map_delete m k) \<le> length m"
  by (induction m) auto

lemma storeSeedInMemory_length:
  "length (domainSeeds st) \<le> 100 \<Longrightarrow> length (domainSeeds (storeSeedInMemory d st)) \<le> 100"
  using length_map_set [of "domainSeeds st" d "currentSeed st"]
  by (auto simp: storeSeedInMemory_def Let_def split: list.splits)

lemma storeSeedInMemory_evicts:
  "length (domainSeeds st) = 100 \<Longrightarrow> d \<notin> fst ` set (domainSeeds st) \<Longrightarrow>
   domainSeeds (storeSeedInMemory d st) = tl (domainSeeds st) @ [(d, currentSeed st)]"
  by (cases "domainSeeds st") (auto simp: storeSeedInMemory_def Let_def map_set_new)

lemma generateSeed_length:
  "length (domainSeeds st) \<le> 100 \<Longrightarrow>
   length (domainSeeds (snd (generateSeed d f st))) \<le> 100"
  by (simp add: generateSeed_def Let_def storeSeedInMemory_length)

lemma getSeed_length:
  assumes "length (domainSeeds st) \<le> 100"
  shows "length (domainSeeds (snd (getSeed d f st))) \<le> 100"
proof -
  have g: "\<And>c. length (domainSeeds (snd (generateSeed d f (st\<lparr>currentSeed := c\<rparr>)))) \<le> 100"
    using assms by (intro generateSeed_length) simp
  show ?thesis
    using assms g by (simp add: getSeed_def split: option.splits)
qed

lemma clearSeed_length:
  "length (domainSeeds st) \<le> 100 \<Longrightarrow> length (domainSeeds (clearSeed d st)) \<le> 100"
  using length_map_delete [of "domainSeeds st" d] by (simp add: clearSeed_def)

lemma lifecycle_step_length:
  "length (domainSeeds st) \<le> 100 \<Longrightarrow> length (domainSeeds (lifecycle_step op st)) \<le> 100"
  by (cases op)
     (simp_all add: generateSeed_length getSeed_length clearSeed_length storeSeedInMemory_length)

lemma lifecycle_run_length:
  "length (domainSeeds st) \<le> 100 \<Longrightarrow>
   length (domainSeeds (foldl (\<lambda>s op. lifecycle_step op s) st ops)) \<le> 100"
  by (induction ops arbitrary: st) (simp_all add: lifecycle_step_length)

text \<open>
  \<^bold>\<open>C9.\<close> Every state that the lifecycle operations reach from the empty seed manager
  holds at most 100 domains; \<^verbatim>\<open>storeSeedInMemory\<close> keeps the bound; and a store of a new
  domain into a full map drops the first (oldest) entry and appends the new one.
\<close>

theorem storeSeedInMemory_bounded:
  "length (domainSeeds (foldl (\<lambda>s op. lifecycle_step op s) initial_seed_manager ops)) \<le> 100
   \<and> (length (domainSeeds st) \<le> 100 \<longrightarrow>
        length (domainSeeds (storeSeedInMemory d st)) \<le> 100)
   \<and> (length (domainSeeds st) = 100 \<and> d \<notin> fst ` set (domainSeeds st) \<longrightarrow>
        domainSeeds (storeSeedInMemory d st) = tl (domainSeeds st) @ [(d, currentSeed st)])"
  by (simp add: lifecycle_run_length initial_seed_manager_def storeSeedInMemory_length
      storeSeedInMemory_evicts)

theorem storeSeedInMemory_bounded_witness:
  "length (domainSeeds full_manager) \<le> 100
   \<and> length (domainSeeds full_manager) = 100
   \<and> ''x.org'' \<notin> fst ` set (domainSeeds full_manager)
   \<and> length (domainSeeds (storeSeedInMemory ''x.org'' full_manager)) \<le> 100
   \<and> domainSeeds (storeSeedInMemory ''x.org'' full_manager)
       = tl (domainSeeds full_manager) @ [(''x.org'', currentSeed full_manager)]"
proof -
  have len: "length (domainSeeds full_manager) = 100"
    by (simp add: full_manager_def)
  have new: "''x.org'' \<notin> fst ` set (domainSeeds full_manager)"
    by (auto simp: full_manager_def)
  from storeSeedInMemory_bounded [of "[]" full_manager "''x.org''"] len new
  show ?thesis by simp
qed

section \<open>The derived random operations\<close>

lemma weighted_loop_mem: "weighted_loop xs ws r = Some x \<Longrightarrow> x \<in> set xs"
  by (induction xs ws r rule: weighted_loop.induct) (auto split: if_splits)

lemma randomWeightedChoice_mem:
  "items \<noteq> [] \<Longrightarrow> \<exists>x \<in> set items. randomWeightedChoice seed items ws i = Val x"
  by (auto simp: randomWeightedChoice_def Let_def dest: weighted_loop_mem split: option.splits)

lemma randomWeightedChoice_empty: "randomWeightedChoice seed [] ws i = Null"
  by (simp add: randomWeightedChoice_def)

lemma randomWeightedChoice_single: "randomWeightedChoice seed [x] ws i = Val x"
  using randomWeightedChoice_mem [of "[x]" seed ws i] by simp

lemma randomInt_range:
  assumes "random seed i < 1" and "0 < n"
  shows "0 \<le> randomInt seed 0 (int n - 1) i \<and> randomInt seed 0 (int n - 1) i < int n"
proof -
  have a: "0 \<le> random seed i * real n"
    using random_nonneg [of seed i] by simp
  have b: "random seed i * real n < real n"
    using assms by simp
  have "\<lfloor>random seed i * real n\<rfloor> < int n"
    using b by (simp add: floor_less_iff)
  moreover have "0 \<le> \<lfloor>random seed i * real n\<rfloor>"
    using a by simp
  ultimately show ?thesis by (simp add: randomInt_def Let_def)
qed

lemma randomChoice_mem:
  assumes "random seed i < 1" and "xs \<noteq> []"
  shows "\<exists>x \<in> set xs. randomChoice seed xs i = Val x"
proof -
  from assms(2) have n: "0 < length xs" by simp
  from randomInt_range [OF assms(1) n]
  show ?thesis
    using assms(2) by (auto simp: randomChoice_def Let_def array_get_def)
qed

lemma randomInt_reversed:
  assumes "mx < mn"
  shows "mx + 1 \<le> randomInt seed mn mx i \<and> randomInt seed mn mx i \<le> mn"
proof -
  define d where "d = real_of_int (mn - mx - 1)"
  have d0: "0 \<le> d" using assms by (simp add: d_def)
  have eq: "real_of_int (mx - mn + 1) = - d" by (simp add: d_def)
  have "random seed i * (- d) \<le> 0"
    using random_nonneg [of seed i] d0 by (simp add: mult_nonneg_nonneg)
  then have up: "\<lfloor>random seed i * (- d)\<rfloor> \<le> 0" by (simp add: floor_le_zero)
  have "- d \<le> random seed i * (- d)"
    using mult_right_mono [OF random_le_1 [of seed i] d0] by simp
  then have "real_of_int (mx - mn + 1) \<le> random seed i * (- d)" unfolding eq .
  then have lo: "mx - mn + 1 \<le> \<lfloor>random seed i * (- d)\<rfloor>" by (simp add: le_floor_iff)
  show ?thesis
    using up lo unfolding randomInt_def Let_def eq by simp
qed

subsection \<open>Draws of the seed \<open>seed_a\<close>\<close>

lemma key_a_10: "seed_a @ ''-'' @ toString10 10
   = ''a1b2c3d4e5f60718293a4b5c6d7e8f90a1b2c3d4e5f60718293a4b5c6d7e8f90-10''"
  unfolding seed_a_def by code_simp

lemma hash_a_10:
  "hash_loop FNV_OFFSET_BASIS
     ''a1b2c3d4e5f60718293a4b5c6d7e8f90a1b2c3d4e5f60718293a4b5c6d7e8f90-10'' = 1928729937"
  by code_simp

lemma random_a_10: "random seed_a 10 = 1928729937 / 4294967295"
  unfolding random_eq key_a_10 hash_a_10 by simp

lemma key_a_11: "seed_a @ ''-'' @ toString10 11
   = ''a1b2c3d4e5f60718293a4b5c6d7e8f90a1b2c3d4e5f60718293a4b5c6d7e8f90-11''"
  unfolding seed_a_def by code_simp

lemma hash_a_11:
  "hash_loop FNV_OFFSET_BASIS
     ''a1b2c3d4e5f60718293a4b5c6d7e8f90a1b2c3d4e5f60718293a4b5c6d7e8f90-11'' = 1911952318"
  by code_simp

lemma random_a_11: "random seed_a 11 = 1911952318 / 4294967295"
  unfolding random_eq key_a_11 hash_a_11 by simp

lemma key_a_12: "seed_a @ ''-'' @ toString10 12
   = ''a1b2c3d4e5f60718293a4b5c6d7e8f90a1b2c3d4e5f60718293a4b5c6d7e8f90-12''"
  unfolding seed_a_def by code_simp

lemma hash_a_12:
  "hash_loop FNV_OFFSET_BASIS
     ''a1b2c3d4e5f60718293a4b5c6d7e8f90a1b2c3d4e5f60718293a4b5c6d7e8f90-12'' = 1895174699"
  by code_simp

lemma random_a_12: "random seed_a 12 = 1895174699 / 4294967295"
  unfolding random_eq key_a_12 hash_a_12 by simp

lemma key_a_13: "seed_a @ ''-'' @ toString10 13
   = ''a1b2c3d4e5f60718293a4b5c6d7e8f90a1b2c3d4e5f60718293a4b5c6d7e8f90-13''"
  unfolding seed_a_def by code_simp

lemma hash_a_13:
  "hash_loop FNV_OFFSET_BASIS
     ''a1b2c3d4e5f60718293a4b5c6d7e8f90a1b2c3d4e5f60718293a4b5c6d7e8f90-13'' = 1878397080"
  by code_simp

lemma random_a_13: "random seed_a 13 = 1878397080 / 4294967295"
  unfolding random_eq key_a_13 hash_a_13 by simp

lemma key_a_14: "seed_a @ ''-'' @ toString10 14
   = ''a1b2c3d4e5f60718293a4b5c6d7e8f90a1b2c3d4e5f60718293a4b5c6d7e8f90-14''"
  unfolding seed_a_def by code_simp

lemma hash_a_14:
  "hash_loop FNV_OFFSET_BASIS
     ''a1b2c3d4e5f60718293a4b5c6d7e8f90a1b2c3d4e5f60718293a4b5c6d7e8f90-14'' = 1995840413"
  by code_simp

lemma random_a_14: "random seed_a 14 = 1995840413 / 4294967295"
  unfolding random_eq key_a_14 hash_a_14 by simp

lemma randomInt_a_5_3: "randomInt seed_a 5 3 10 = 4"
  unfolding randomInt_def Let_def random_a_10 by simp

lemma randomChoice_a_10: "randomChoice seed_a [16, 20, 24, 32 :: nat] 10 = Val 20"
proof -
  have "randomInt seed_a 0 3 10 = 1"
    unfolding randomInt_def Let_def random_a_10 by simp
  then show ?thesis by (simp add: randomChoice_def Let_def array_get_def)
qed

lemma randomChoice_a_12: "randomChoice seed_a [6, 8, 12 :: nat] 12 = Val 8"
proof -
  have "randomInt seed_a 0 2 12 = 1"
    unfolding randomInt_def Let_def random_a_12 by simp
  then show ?thesis by (simp add: randomChoice_def Let_def array_get_def)
qed

text \<open>
  \<^bold>\<open>C5.\<close> The claim: an empty item list or \<open>min > max\<close> is reported to the caller as an
  invalid-argument error and never turned into an ordinary return value. The three
  functions contain no \<^verbatim>\<open>throw\<close>: on an empty list \<^verbatim>\<open>randomChoice\<close> and
  \<^verbatim>\<open>randomWeightedChoice\<close> return \<^verbatim>\<open>null\<close>, and \<^verbatim>\<open>randomInt(5, 3, 10)\<close> returns the number 4.
\<close>

theorem bad_arguments_return_values:
  "randomChoice seed_a ([] :: nat list) 0 = Null
   \<and> randomWeightedChoice seed_a ([] :: string list) [] 0 = Null
   \<and> randomInt seed_a 5 3 10 = 4"
  by (simp add: randomChoice_def randomWeightedChoice_empty randomInt_a_5_3)

text \<open>
  \<^bold>\<open>C5, as amended.\<close> For an empty item list \<^verbatim>\<open>randomChoice\<close> and \<^verbatim>\<open>randomWeightedChoice\<close>
  return \<^verbatim>\<open>null\<close>, whatever the seed, weights and index; for \<open>min > max\<close> \<^verbatim>\<open>randomInt\<close>
  returns an integer between \<open>max + 1\<close> and \<open>min\<close>. No error is raised in either case.
\<close>

theorem bad_arguments_tolerated:
  "randomChoice seed ([] :: 'a list) i = Null
   \<and> randomWeightedChoice seed ([] :: 'b list) ws i = Null
   \<and> (mx < mn \<longrightarrow> mx + 1 \<le> randomInt seed mn mx j \<and> randomInt seed mn mx j \<le> mn)"
  by (simp add: randomChoice_def randomWeightedChoice_empty randomInt_reversed)

theorem bad_arguments_tolerated_witness:
  "(3::int) < 5 \<and> 3 + 1 \<le> randomInt seed_a 5 3 10 \<and> randomInt seed_a 5 3 10 \<le> 5"
  using bad_arguments_tolerated [where ?'a = nat and ?'b = nat, of seed_a 0 "[]" 3 5 10]
  by simp

section \<open>Profile synthesis\<close>

lemma generateProfile_Inr:
  assumes "generateProfile seed profiles = Inr p"
  shows "\<exists>a \<in> set profiles.
           p = \<lparr>p_seed = seed, p_archetype = arch_name a, p_os = selectOS seed a,
                p_hardware = selectHardware seed a,
                p_navigator = buildNavigatorProfile (selectOS seed a) (selectHardware seed a)\<rparr>"
proof (cases "profiles = []")
  case True
  with assms show ?thesis
    by (simp add: generateProfile_def selectArchetype_def randomWeightedChoice_empty)
next
  case False
  from randomWeightedChoice_mem [OF False]
  obtain a where "a \<in> set profiles" and "selectArchetype seed profiles = Val a"
    unfolding selectArchetype_def Let_def by blast
  with assms show ?thesis
    by (auto simp: generateProfile_def Let_def)
qed

lemma generateProfile_single:
  "generateProfile seed [a]
   = Inr \<lparr>p_seed = seed, p_archetype = arch_name a, p_os = selectOS seed a,
          p_hardware = selectHardware seed a,
          p_navigator = buildNavigatorProfile (selectOS seed a) (selectHardware seed a)\<rparr>"
  by (simp add: generateProfile_def selectArchetype_def randomWeightedChoice_single Let_def)

lemma lower_i5: "toLowerCase ''Intel Core i5'' = ''intel core i5''"
  by code_simp

lemma tiers_i5:
  "\<not> str_includes ''intel core i5'' ''i9'' \<and> \<not> str_includes ''intel core i5'' ''ryzen 9''
   \<and> \<not> str_includes ''intel core i5'' ''threadripper'' \<and> \<not> str_includes ''intel core i5'' ''i7''
   \<and> \<not> str_includes ''intel core i5'' ''ryzen 7'' \<and> str_includes ''intel core i5'' ''i5''"
  by code_simp

lemma getCoreCount_default: "getCoreCount seed (Val ''Intel Core i5'') = randomChoice seed [6, 8, 12] 12"
  by (simp add: getCoreCount_def Let_def lower_i5 tiers_i5)

lemma selectHardware_default:
  "selectHardware seed (hd getDefaultProfiles)
   = \<lparr>hw_cpu = Val ''Intel Core i5'', hw_hardwareConcurrency = randomChoice seed [6, 8, 12] 12\<rparr>"
  by (simp add: selectHardware_def getDefaultProfiles_def Let_def randomWeightedChoice_single
      getCoreCount_default)

lemma selectOS_default:
  "selectOS seed (hd getDefaultProfiles)
   = \<lparr>os_name = Val ''Windows 11'', os_platform = Some ''Win32''\<rparr>"
  by (simp add: selectOS_def getDefaultProfiles_def Let_def randomWeightedChoice_single)

lemma vendor_windows: "getVendor (Val ''Windows 11'') = ''Google Inc.''"
  unfolding getVendor_def by code_simp

lemma generateProfile_default_a:
  "generateProfile seed_a getDefaultProfiles = Inr default_profile_a"
proof -
  have "getDefaultProfiles = [hd getDefaultProfiles]" by (simp add: getDefaultProfiles_def)
  then have "generateProfile seed_a getDefaultProfiles
             = generateProfile seed_a [hd getDefaultProfiles]"
    by simp
  also have "\<dots> = Inr default_profile_a"
    unfolding generateProfile_single selectOS_default selectHardware_default randomChoice_a_12
    by (simp add: buildNavigatorProfile_def vendor_windows getDefaultProfiles_def
        default_profile_a_def)
  finally show ?thesis .
qed

lemma selectOS_platform: "os_platform (selectOS seed a) = arch_platform a"
  by (simp add: selectOS_def Let_def)

lemma selectOS_name:
  "os_name (selectOS seed a)
   \<in> insert Null (Val ` fst ` set (case arch_os a of None \<Rightarrow> [] | Some t \<Rightarrow> t))"
proof (cases "(case arch_os a of None \<Rightarrow> [] | Some t \<Rightarrow> t) = []")
  case True
  then show ?thesis by (simp add: selectOS_def Let_def randomWeightedChoice_empty)
next
  case False
  then have "map fst (case arch_os a of None \<Rightarrow> [] | Some t \<Rightarrow> t) \<noteq> []" by simp
  from randomWeightedChoice_mem [OF this]
  show ?thesis by (fastforce simp: selectOS_def Let_def)
qed

lemma getVendor_if:
  "getVendor osName
   = (if \<exists>n. osName = Val n \<and> str_includes n ''macOS''
      then ''Apple Computer, Inc.'' else ''Google Inc.'')"
  by (cases osName) (simp_all add: getVendor_def)

text \<open>
  \<^bold>\<open>C6, as amended.\<close> In every generated profile the platform string of the OS block and
  of the navigator block is the \<^verbatim>\<open>platform\<close> field of the chosen archetype, copied as it
  is (so it is \<^verbatim>\<open>Win32\<close> exactly when the archetype says so); the OS name is drawn from that
  archetype's OS table; and the vendor is a fixed function of the OS name:
  \<^verbatim>\<open>Apple Computer, Inc.\<close> when the name contains \<^verbatim>\<open>macOS\<close>, \<^verbatim>\<open>Google Inc.\<close> otherwise.
\<close>

theorem platform_from_archetype:
  assumes "generateProfile seed profiles = Inr p"
  shows "(\<exists>a \<in> set profiles.
            p_archetype p = arch_name a
            \<and> os_platform (p_os p) = arch_platform a
            \<and> nav_platform (p_navigator p) = arch_platform a
            \<and> os_name (p_os p)
                \<in> insert Null (Val ` fst ` set (case arch_os a of None \<Rightarrow> [] | Some t \<Rightarrow> t)))
       \<and> nav_vendor (p_navigator p)
           = (if \<exists>n. os_name (p_os p) = Val n \<and> str_includes n ''macOS''
              then ''Apple Computer, Inc.'' else ''Google Inc.'')"
proof -
  from generateProfile_Inr [OF assms] obtain a where a: "a \<in> set profiles"
    and p: "p = \<lparr>p_seed = seed, p_archetype = arch_name a, p_os = selectOS seed a,
                p_hardware = selectHardware seed a,
                p_navigator = buildNavigatorProfile (selectOS seed a) (selectHardware seed a)\<rparr>"
    by blast
  have 1: "p_archetype p = arch_name a" by (simp add: p)
  have 2: "os_platform (p_os p) = arch_platform a" by (simp add: p selectOS_platform)
  have 3: "nav_platform (p_navigator p) = arch_platform a"
    by (simp add: p buildNavigatorProfile_def selectOS_platform)
  have 4: "os_name (p_os p)
           \<in> insert Null (Val ` fst ` set (case arch_os a of None \<Rightarrow> [] | Some t \<Rightarrow> t))"
    using selectOS_name [of seed a] by (simp add: p)
  have 5: "nav_vendor (p_navigator p) = getVendor (os_name (p_os p))"
    by (simp add: p buildNavigatorProfile_def)
  from a 1 2 3 4 have "\<exists>a \<in> set profiles.
            p_archetype p = arch_name a
            \<and> os_platform (p_os p) = arch_platform a
            \<and> nav_platform (p_navigator p) = arch_platform a
            \<and> os_name (p_os p)
                \<in> insert Null (Val ` fst ` set (case arch_os a of None \<Rightarrow> [] | Some t \<Rightarrow> t))"
    by blast
  then show ?thesis unfolding 5 getVendor_if by blast
qed

lemma str_includes_map: "str_includes s sub \<Longrightarrow> str_includes (map f s) (map f sub)"
proof (induction s)
  case Nil
  then show ?case by simp
next
  case (Cons c cs)
  from Cons.prems have "prefix sub (c # cs) \<or> str_includes cs sub" by simp
  then show ?case
  proof
    assume "prefix sub (c # cs)"
    then have "prefix (map f sub) (map f (c # cs))" by (rule map_mono_prefix)
    then show ?thesis by simp
  next
    assume "str_includes cs sub"
    then have "str_includes (map f cs) (map f sub)" by (rule Cons.IH)
    then show ?thesis by simp
  qed
qed

lemma str_includes_lower_i5: "str_includes cpu ''i5'' \<Longrightarrow> str_includes (toLowerCase cpu) ''i5''"
proof -
  assume "str_includes cpu ''i5''"
  then have "str_includes (map lower_char cpu) (map lower_char ''i5'')" by (rule str_includes_map)
  moreover have "map lower_char ''i5'' = ''i5''" by code_simp
  ultimately show ?thesis by (simp add: toLowerCase_def)
qed

lemma str_includes_nonempty: "str_includes s (c # cs) \<Longrightarrow> s \<noteq> []"
  by (cases s) auto

lemma getCoreCount_i5:
  assumes "str_includes cpu ''i5''"
      and "\<not> str_includes (toLowerCase cpu) ''i9''"
      and "\<not> str_includes (toLowerCase cpu) ''ryzen 9''"
      and "\<not> str_includes (toLowerCase cpu) ''threadripper''"
      and "\<not> str_includes (toLowerCase cpu) ''i7''"
      and "\<not> str_includes (toLowerCase cpu) ''ryzen 7''"
  shows "getCoreCount seed (Val cpu) = randomChoice seed [6, 8, 12] 12"
proof -
  have ne: "cpu \<noteq> []" using assms(1) by (rule str_includes_nonempty)
  have i5: "str_includes (toLowerCase cpu) ''i5''" using assms(1) by (rule str_includes_lower_i5)
  show ?thesis
    unfolding getCoreCount_def using ne i5 assms(2-6) by (simp add: Let_def)
qed

lemma randomChoice_i5:
  assumes "random seed 12 < 1"
  shows "randomChoice seed [6, 8, 12 :: nat] 12 \<in> {Val 6, Val 8, Val 12}"
  using randomChoice_mem [OF assms, of "[6, 8, 12 :: nat]"] by auto

lemma selectHardware_count:
  "hw_cpu (selectHardware seed a) = Val cpu \<Longrightarrow>
   hw_hardwareConcurrency (selectHardware seed a) = getCoreCount seed (Val cpu)"
  by (auto simp: selectHardware_def Let_def split: option.splits)

text \<open>
  \<^bold>\<open>C8, as amended.\<close> In every generated profile whose CPU string contains \<^verbatim>\<open>i5\<close> and,
  in lower case, none of \<^verbatim>\<open>i9\<close>, \<^verbatim>\<open>ryzen 9\<close>, \<^verbatim>\<open>threadripper\<close>, \<^verbatim>\<open>i7\<close>, \<^verbatim>\<open>ryzen 7\<close>, the
  core count is one of 6, 8, 12, provided the draw at index 12 is below 1; for the
  built-in catalog the CPU is \<^verbatim>\<open>Intel Core i5\<close> under every such seed.
\<close>

theorem i5_tier_core_count:
  assumes "generateProfile seed profiles = Inr p" and "random seed 12 < 1"
  shows "(\<forall>cpu. hw_cpu (p_hardware p) = Val cpu \<and> str_includes cpu ''i5''
            \<and> \<not> str_includes (toLowerCase cpu) ''i9''
            \<and> \<not> str_includes (toLowerCase cpu) ''ryzen 9''
            \<and> \<not> str_includes (toLowerCase cpu) ''threadripper''
            \<and> \<not> str_includes (toLowerCase cpu) ''i7''
            \<and> \<not> str_includes (toLowerCase cpu) ''ryzen 7''
            \<longrightarrow> hw_hardwareConcurrency (p_hardware p) \<in> {Val 6, Val 8, Val 12})
       \<and> (profiles = getDefaultProfiles
            \<longrightarrow> hw_cpu (p_hardware p) = Val ''Intel Core i5''
                \<and> hw_hardwareConcurrency (p_hardware p) \<in> {Val 6, Val 8, Val 12})"
proof -
  from generateProfile_Inr [OF assms(1)] obtain a where a: "a \<in> set profiles"
    and h: "p_hardware p = selectHardware seed a"
    by auto
  have general: "hw_hardwareConcurrency (p_hardware p) \<in> {Val 6, Val 8, Val 12}"
    if "hw_cpu (p_hardware p) = Val cpu" and "str_includes cpu ''i5''"
      and "\<not> str_includes (toLowerCase cpu) ''i9''"
      and "\<not> str_includes (toLowerCase cpu) ''ryzen 9''"
      and "\<not> str_includes (toLowerCase cpu) ''threadripper''"
      and "\<not> str_includes (toLowerCase cpu) ''i7''"
      and "\<not> str_includes (toLowerCase cpu) ''ryzen 7''" for cpu
  proof -
    from that(1) have "hw_hardwareConcurrency (p_hardware p) = getCoreCount seed (Val cpu)"
      unfolding h by (rule selectHardware_count)
    also have "\<dots> = randomChoice seed [6, 8, 12] 12"
      using that(2-7) by (rule getCoreCount_i5)
    finally show ?thesis using randomChoice_i5 [OF assms(2)] by simp
  qed
  have default: "hw_cpu (p_hardware p) = Val ''Intel Core i5''
                \<and> hw_hardwareConcurrency (p_hardware p) \<in> {Val 6, Val 8, Val 12}"
    if "profiles = getDefaultProfiles"
  proof -
    from that a have "a = hd getDefaultProfiles" by (simp add: getDefaultProfiles_def)
    then have "p_hardware p = \<lparr>hw_cpu = Val ''Intel Core i5'',
                 hw_hardwareConcurrency = randomChoice seed [6, 8, 12] 12\<rparr>"
      using h selectHardware_default by simp
    then show ?thesis using randomChoice_i5 [OF assms(2)] by simp
  qed
  from general default show ?thesis by blast
qed


theorem platform_from_archetype_witness:
  "generateProfile seed_a getDefaultProfiles = Inr default_profile_a
   \<and> os_platform (p_os default_profile_a) = Some ''Win32''
   \<and> nav_platform (p_navigator default_profile_a) = Some ''Win32''
   \<and> nav_vendor (p_navigator default_profile_a) = ''Google Inc.''"
  using platform_from_archetype [OF generateProfile_default_a] generateProfile_default_a
  by (simp add: getDefaultProfiles_def default_profile_a_def)

text \<open>
  \<^bold>\<open>C6.\<close> The claim: platform and vendor come from a lookup table keyed by the chosen OS,
  so an OS name containing \<^verbatim>\<open>Windows\<close> gives the platform \<^verbatim>\<open>Win32\<close>. \<^verbatim>\<open>selectOS\<close> reads
  the platform from the archetype, not from the OS name: an archetype that declares
  \<^verbatim>\<open>MacIntel\<close> and offers \<^verbatim>\<open>Windows 11\<close> yields a Windows profile on \<^verbatim>\<open>MacIntel\<close>.
\<close>

lemma selectOS_mac:
  "selectOS seed (hd mac_platform_catalog)
   = \<lparr>os_name = Val ''Windows 11'', os_platform = Some ''MacIntel''\<rparr>"
  by (simp add: selectOS_def mac_platform_catalog_def Let_def randomWeightedChoice_single)

lemma selectHardware_mac:
  "selectHardware seed (hd mac_platform_catalog)
   = \<lparr>hw_cpu = Val ''Intel Core i5'', hw_hardwareConcurrency = randomChoice seed [6, 8, 12] 12\<rparr>"
  by (simp add: selectHardware_def mac_platform_catalog_def Let_def randomWeightedChoice_single
      getCoreCount_default)

lemma windows_in_name: "str_includes ''Windows 11'' ''Windows''"
  by code_simp

text \<open>The counterexample to C6 as stated.\<close>

theorem windows_profile_with_mac_platform:
  "generateProfile seed_a mac_platform_catalog
   = Inr \<lparr>p_seed = seed_a, p_archetype = ''Office Desktop'',
          p_os = \<lparr>os_name = Val ''Windows 11'', os_platform = Some ''MacIntel''\<rparr>,
          p_hardware = \<lparr>hw_cpu = Val ''Intel Core i5'', hw_hardwareConcurrency = Val 8\<rparr>,
          p_navigator = \<lparr>nav_platform = Some ''MacIntel'', nav_hardwareConcurrency = 8,
                         nav_vendor = ''Google Inc.''\<rparr>\<rparr>
   \<and> str_includes ''Windows 11'' ''Windows''
   \<and> Some ''MacIntel'' \<noteq> Some ''Win32''"
proof -
  have "mac_platform_catalog = [hd mac_platform_catalog]"
    by (simp add: mac_platform_catalog_def)
  then have "generateProfile seed_a mac_platform_catalog
             = generateProfile seed_a [hd mac_platform_catalog]"
    by simp
  also have "\<dots> = Inr \<lparr>p_seed = seed_a, p_archetype = ''Office Desktop'',
          p_os = \<lparr>os_name = Val ''Windows 11'', os_platform = Some ''MacIntel''\<rparr>,
          p_hardware = \<lparr>hw_cpu = Val ''Intel Core i5'', hw_hardwareConcurrency = Val 8\<rparr>,
          p_navigator = \<lparr>nav_platform = Some ''MacIntel'', nav_hardwareConcurrency = 8,
                         nav_vendor = ''Google Inc.''\<rparr>\<rparr>"
    unfolding generateProfile_single selectOS_mac selectHardware_mac randomChoice_a_12
    by (simp add: buildNavigatorProfile_def vendor_windows mac_platform_catalog_def)
  finally show ?thesis using windows_in_name by simp
qed

theorem i5_tier_core_count_witness:
  "generateProfile seed_a getDefaultProfiles = Inr default_profile_a
   \<and> random seed_a 12 < 1
   \<and> hw_cpu (p_hardware default_profile_a) = Val ''Intel Core i5''
   \<and> str_includes ''Intel Core i5'' ''i5''
   \<and> \<not> str_includes (toLowerCase ''Intel Core i5'') ''i9''
   \<and> \<not> str_includes (toLowerCase ''Intel Core i5'') ''ryzen 9''
   \<and> \<not> str_includes (toLowerCase ''Intel Core i5'') ''threadripper''
   \<and> \<not> str_includes (toLowerCase ''Intel Core i5'') ''i7''
   \<and> \<not> str_includes (toLowerCase ''Intel Core i5'') ''ryzen 7''
   \<and> hw_hardwareConcurrency (p_hardware default_profile_a) \<in> {Val 6, Val 8, Val 12}"
proof -
  have draw: "random seed_a 12 < 1" unfolding random_a_12 by simp
  have cpu: "hw_cpu (p_hardware default_profile_a) = Val ''Intel Core i5''"
    by (simp add: default_profile_a_def)
  have inc: "str_includes ''Intel Core i5'' ''i5''" by code_simp
  from i5_tier_core_count [OF generateProfile_default_a draw]
  have "hw_hardwareConcurrency (p_hardware default_profile_a) \<in> {Val 6, Val 8, Val 12}"
    by simp
  with draw cpu inc generateProfile_default_a tiers_i5 show ?thesis
    unfolding lower_i5 by simp
qed

text \<open>
  \<^bold>\<open>C8.\<close> The claim: a profile whose CPU string contains \<^verbatim>\<open>i5\<close> has a core count in
  \<open>{6, 8, 12}\<close>. \<^verbatim>\<open>getCoreCount\<close> tests the tiers in order, highest first: the string
  \<^verbatim>\<open>Intel Core i5/i7/i9\<close> contains \<^verbatim>\<open>i5\<close> and is served by the \<^verbatim>\<open>i9\<close> branch.
\<close>

lemma lower_mixed: "toLowerCase ''Intel Core i5/i7/i9'' = ''intel core i5/i7/i9''"
  by code_simp

lemma mixed_i9: "str_includes ''intel core i5/i7/i9'' ''i9''"
  by code_simp

lemma mixed_i5: "str_includes ''Intel Core i5/i7/i9'' ''i5''"
  by code_simp

lemma selectHardware_mixed:
  "selectHardware seed_a (hd mixed_tier_catalog)
   = \<lparr>hw_cpu = Val ''Intel Core i5/i7/i9'', hw_hardwareConcurrency = Val 20\<rparr>"
  by (simp add: selectHardware_def mixed_tier_catalog_def Let_def randomWeightedChoice_single
      getCoreCount_def lower_mixed mixed_i9 randomChoice_a_10)

lemma selectOS_mixed:
  "selectOS seed (hd mixed_tier_catalog)
   = \<lparr>os_name = Val ''Windows 11'', os_platform = Some ''Win32''\<rparr>"
  by (simp add: selectOS_def mixed_tier_catalog_def Let_def randomWeightedChoice_single)

text \<open>The counterexample to C8 as stated.\<close>

theorem i5_string_in_i9_tier:
  "generateProfile seed_a mixed_tier_catalog
   = Inr \<lparr>p_seed = seed_a, p_archetype = ''Default Windows PC'',
          p_os = \<lparr>os_name = Val ''Windows 11'', os_platform = Some ''Win32''\<rparr>,
          p_hardware = \<lparr>hw_cpu = Val ''Intel Core i5/i7/i9'', hw_hardwareConcurrency = Val 20\<rparr>,
          p_navigator = \<lparr>nav_platform = Some ''Win32'', nav_hardwareConcurrency = 20,
                         nav_vendor = ''Google Inc.''\<rparr>\<rparr>
   \<and> str_includes ''Intel Core i5/i7/i9'' ''i5''
   \<and> Val 20 \<notin> {Val 6, Val 8, Val (12::nat)}"
proof -
  have "mixed_tier_catalog = [hd mixed_tier_catalog]"
    by (simp add: mixed_tier_catalog_def)
  then have "generateProfile seed_a mixed_tier_catalog
             = generateProfile seed_a [hd mixed_tier_catalog]"
    by simp
  also have "\<dots> = Inr \<lparr>p_seed = seed_a, p_archetype = ''Default Windows PC'',
          p_os = \<lparr>os_name = Val ''Windows 11'', os_platform = Some ''Win32''\<rparr>,
          p_hardware = \<lparr>hw_cpu = Val ''Intel Core i5/i7/i9'', hw_hardwareConcurrency = Val 20\<rparr>,
          p_navigator = \<lparr>nav_platform = Some ''Win32'', nav_hardwareConcurrency = 20,
                         nav_vendor = ''Google Inc.''\<rparr>\<rparr>"
    unfolding generateProfile_single selectOS_mixed selectHardware_mixed
    by (simp add: buildNavigatorProfile_def vendor_windows mixed_tier_catalog_def)
  finally show ?thesis using mixed_i5 by simp
qed

lemma getCoreCount_range:
  assumes "random seed 10 < 1" and "random seed 11 < 1" and "random seed 12 < 1"
      and "random seed 13 < 1" and "random seed 14 < 1"
  shows "getCoreCount seed c \<in> Val ` {2, 4, 6, 8, 12, 16, 20, 24, 32}"
proof -
  have a: "randomChoice seed [16, 20, 24, 32 :: nat] 10 \<in> Val ` {2, 4, 6, 8, 12, 16, 20, 24, 32}"
    using randomChoice_mem [OF assms(1), of "[16, 20, 24, 32 :: nat]"] by auto
  have b: "randomChoice seed [8, 12, 16 :: nat] 11 \<in> Val ` {2, 4, 6, 8, 12, 16, 20, 24, 32}"
    using randomChoice_mem [OF assms(2), of "[8, 12, 16 :: nat]"] by auto
  have c: "randomChoice seed [6, 8, 12 :: nat] 12 \<in> Val ` {2, 4, 6, 8, 12, 16, 20, 24, 32}"
    using randomChoice_mem [OF assms(3), of "[6, 8, 12 :: nat]"] by auto
  have d: "randomChoice seed [4, 6 :: nat] 13 \<in> Val ` {2, 4, 6, 8, 12, 16, 20, 24, 32}"
    using randomChoice_mem [OF assms(4), of "[4, 6 :: nat]"] by auto
  have e: "randomChoice seed [2, 4 :: nat] 14 \<in> Val ` {2, 4, 6, 8, 12, 16, 20, 24, 32}"
    using randomChoice_mem [OF assms(5), of "[2, 4 :: nat]"] by auto
  have f: "Val (4::nat) \<in> Val ` {2, 4, 6, 8, 12, 16, 20, 24, 32}" by simp
  have g: "Val (8::nat) \<in> Val ` {2, 4, 6, 8, 12, 16, 20, 24, 32}" by simp
  show ?thesis
    unfolding getCoreCount_def Let_def
    using a b c d e f g by (simp split: jsval.split)
qed

lemma getCoreCount_no_tier:
  assumes "\<not> str_includes (toLowerCase cpu) ''i9''" and "\<not> str_includes (toLowerCase cpu) ''ryzen 9''"
      and "\<not> str_includes (toLowerCase cpu) ''threadripper''"
      and "\<not> str_includes (toLowerCase cpu) ''i7''" and "\<not> str_includes (toLowerCase cpu) ''ryzen 7''"
      and "\<not> str_includes (toLowerCase cpu) ''i5''" and "\<not> str_includes (toLowerCase cpu) ''ryzen 5''"
      and "\<not> str_includes (toLowerCase cpu) ''i3''" and "\<not> str_includes (toLowerCase cpu) ''ryzen 3''"
      and "\<not> str_includes (toLowerCase cpu) ''m1''" and "\<not> str_includes (toLowerCase cpu) ''m2''"
      and "\<not> str_includes (toLowerCase cpu) ''m3''"
      and "\<not> str_includes (toLowerCase cpu) ''celeron''"
      and "\<not> str_includes (toLowerCase cpu) ''pentium''"
  shows "getCoreCount seed (Val cpu) = Val 4"
  unfolding getCoreCount_def Let_def using assms by simp

lemma getCoreCount_apple:
  assumes "\<not> str_includes (toLowerCase cpu) ''i9''" and "\<not> str_includes (toLowerCase cpu) ''ryzen 9''"
      and "\<not> str_includes (toLowerCase cpu) ''threadripper''"
      and "\<not> str_includes (toLowerCase cpu) ''i7''" and "\<not> str_includes (toLowerCase cpu) ''ryzen 7''"
      and "\<not> str_includes (toLowerCase cpu) ''i5''" and "\<not> str_includes (toLowerCase cpu) ''ryzen 5''"
      and "\<not> str_includes (toLowerCase cpu) ''i3''" and "\<not> str_includes (toLowerCase cpu) ''ryzen 3''"
      and "str_includes (toLowerCase cpu) ''m1'' \<or> str_includes (toLowerCase cpu) ''m2''
           \<or> str_includes (toLowerCase cpu) ''m3''"
  shows "getCoreCount seed (Val cpu) = Val 8"
proof -
  have "toLowerCase cpu \<noteq> []" using assms(10) by (auto dest: str_includes_nonempty)
  then have "cpu \<noteq> []" by (auto simp: toLowerCase_def)
  then show ?thesis
    unfolding getCoreCount_def Let_def using assms by simp
qed

text \<open>
  \<^bold>\<open>C10, as amended.\<close> \<^verbatim>\<open>getCoreCount\<close> returns 4 for a missing or empty CPU and for a
  CPU string that matches no tier; it returns 8 for a string that contains \<^verbatim>\<open>m1\<close>, \<^verbatim>\<open>m2\<close>
  or \<^verbatim>\<open>m3\<close> and none of the substrings of the four tiers tested before; both for every
  seed. Whenever the draws at the indices 10 to 14 are below 1, its result is one of
  2, 4, 6, 8, 12, 16, 20, 24, 32.
\<close>

theorem getCoreCount_fixed_cases:
  "getCoreCount seed Undefined = Val 4
   \<and> getCoreCount seed Null = Val 4
   \<and> getCoreCount seed (Val []) = Val 4
   \<and> (\<not> str_includes (toLowerCase cpu) ''i9'' \<and> \<not> str_includes (toLowerCase cpu) ''ryzen 9''
       \<and> \<not> str_includes (toLowerCase cpu) ''threadripper''
       \<and> \<not> str_includes (toLowerCase cpu) ''i7'' \<and> \<not> str_includes (toLowerCase cpu) ''ryzen 7''
       \<and> \<not> str_includes (toLowerCase cpu) ''i5'' \<and> \<not> str_includes (toLowerCase cpu) ''ryzen 5''
       \<and> \<not> str_includes (toLowerCase cpu) ''i3'' \<and> \<not> str_includes (toLowerCase cpu) ''ryzen 3''
       \<and> \<not> str_includes (toLowerCase cpu) ''m1'' \<and> \<not> str_includes (toLowerCase cpu) ''m2''
       \<and> \<not> str_includes (toLowerCase cpu) ''m3''
       \<and> \<not> str_includes (toLowerCase cpu) ''celeron''
       \<and> \<not> str_includes (toLowerCase cpu) ''pentium''
       \<longrightarrow> getCoreCount seed (Val cpu) = Val 4)
   \<and> (\<not> str_includes (toLowerCase apple) ''i9'' \<and> \<not> str_includes (toLowerCase apple) ''ryzen 9''
       \<and> \<not> str_includes (toLowerCase apple) ''threadripper''
       \<and> \<not> str_includes (toLowerCase apple) ''i7'' \<and> \<not> str_includes (toLowerCase apple) ''ryzen 7''
       \<and> \<not> str_includes (toLowerCase apple) ''i5'' \<and> \<not> str_includes (toLowerCase apple) ''ryzen 5''
       \<and> \<not> str_includes (toLowerCase apple) ''i3'' \<and> \<not> str_includes (toLowerCase apple) ''ryzen 3''
       \<and> (str_includes (toLowerCase apple) ''m1'' \<or> str_includes (toLowerCase apple) ''m2''
            \<or> str_includes (toLowerCase apple) ''m3'')
       \<longrightarrow> getCoreCount seed (Val apple) = Val 8)
   \<and> (random seed 10 < 1 \<and> random seed 11 < 1 \<and> random seed 12 < 1
       \<and> random seed 13 < 1 \<and> random seed 14 < 1
       \<longrightarrow> getCoreCount seed c \<in> Val ` {2, 4, 6, 8, 12, 16, 20, 24, 32})"
proof -
  have 1: "getCoreCount seed Undefined = Val 4" by (simp add: getCoreCount_def)
  have 2: "getCoreCount seed Null = Val 4" by (simp add: getCoreCount_def)
  have 3: "getCoreCount seed (Val []) = Val 4" by (simp add: getCoreCount_def)
  from 1 2 3 getCoreCount_no_tier [of cpu seed] getCoreCount_apple [of apple seed]
    getCoreCount_range [of seed c]
  show ?thesis by blast
qed

lemma lower_generic: "toLowerCase ''Generic CPU'' = ''generic cpu''"
  by code_simp

lemma lower_apple: "toLowerCase ''Apple M1'' = ''apple m1''"
  by code_simp

lemma generic_no_tier:
  "\<not> str_includes ''generic cpu'' ''i9'' \<and> \<not> str_includes ''generic cpu'' ''ryzen 9''
       \<and> \<not> str_includes ''generic cpu'' ''threadripper''
       \<and> \<not> str_includes ''generic cpu'' ''i7'' \<and> \<not> str_includes ''generic cpu'' ''ryzen 7''
       \<and> \<not> str_includes ''generic cpu'' ''i5'' \<and> \<not> str_includes ''generic cpu'' ''ryzen 5''
       \<and> \<not> str_includes ''generic cpu'' ''i3'' \<and> \<not> str_includes ''generic cpu'' ''ryzen 3''
       \<and> \<not> str_includes ''generic cpu'' ''m1'' \<and> \<not> str_includes ''generic cpu'' ''m2''
       \<and> \<not> str_includes ''generic cpu'' ''m3''
       \<and> \<not> str_includes ''generic cpu'' ''celeron''
       \<and> \<not> str_includes ''generic cpu'' ''pentium''"
  by code_simp

lemma apple_tier:
  "\<not> str_includes ''apple m1'' ''i9'' \<and> \<not> str_includes ''apple m1'' ''ryzen 9''
       \<and> \<not> str_includes ''apple m1'' ''threadripper''
       \<and> \<not> str_includes ''apple m1'' ''i7'' \<and> \<not> str_includes ''apple m1'' ''ryzen 7''
       \<and> \<not> str_includes ''apple m1'' ''i5'' \<and> \<not> str_includes ''apple m1'' ''ryzen 5''
       \<and> \<not> str_includes ''apple m1'' ''i3'' \<and> \<not> str_includes ''apple m1'' ''ryzen 3''
       \<and> (str_includes ''apple m1'' ''m1'' \<or> str_includes ''apple m1'' ''m2''
            \<or> str_includes ''apple m1'' ''m3'')"
  by code_simp

lemma draws_a_below_1:
  "random seed_a 10 < 1 \<and> random seed_a 11 < 1 \<and> random seed_a 12 < 1
   \<and> random seed_a 13 < 1 \<and> random seed_a 14 < 1"
  unfolding random_a_10 random_a_11 random_a_12 random_a_13 random_a_14 by simp

theorem getCoreCount_fixed_cases_witness:
  "(\<not> str_includes (toLowerCase ''Generic CPU'') ''i9''
       \<and> \<not> str_includes (toLowerCase ''Generic CPU'') ''ryzen 9''
       \<and> \<not> str_includes (toLowerCase ''Generic CPU'') ''threadripper''
       \<and> \<not> str_includes (toLowerCase ''Generic CPU'') ''i7''
       \<and> \<not> str_includes (toLowerCase ''Generic CPU'') ''ryzen 7''
       \<and> \<not> str_includes (toLowerCase ''Generic CPU'') ''i5''
       \<and> \<not> str_includes (toLowerCase ''Generic CPU'') ''ryzen 5''
       \<and> \<not> str_includes (toLowerCase ''Generic CPU'') ''i3''
       \<and> \<not> str_includes (toLowerCase ''Generic CPU'') ''ryzen 3''
       \<and> \<not> str_includes (toLowerCase ''Generic CPU'') ''m1''
       \<and> \<not> str_includes (toLowerCase ''Generic CPU'') ''m2''
       \<and> \<not> str_includes (toLowerCase ''Generic CPU'') ''m3''
       \<and> \<not> str_includes (toLowerCase ''Generic CPU'') ''celeron''
       \<and> \<not> str_includes (toLowerCase ''Generic CPU'') ''pentium'')
   \<and> getCoreCount seed_a (Val ''Generic CPU'') = Val 4
   \<and> (\<not> str_includes (toLowerCase ''Apple M1'') ''i9''
       \<and> \<not> str_includes (toLowerCase ''Apple M1'') ''ryzen 9''
       \<and> \<not> str_includes (toLowerCase ''Apple M1'') ''threadripper''
       \<and> \<not> str_includes (toLowerCase ''Apple M1'') ''i7''
       \<and> \<not> str_includes (toLowerCase ''Apple M1'') ''ryzen 7''
       \<and> \<not> str_includes (toLowerCase ''Apple M1'') ''i5''
       \<and> \<not> str_includes (toLowerCase ''Apple M1'') ''ryzen 5''
       \<and> \<not> str_includes (toLowerCase ''Apple M1'') ''i3''
       \<and> \<not> str_includes (toLowerCase ''Apple M1'') ''ryzen 3''
       \<and> (str_includes (toLowerCase ''Apple M1'') ''m1''
            \<or> str_includes (toLowerCase ''Apple M1'') ''m2''
            \<or> str_includes (toLowerCase ''Apple M1'') ''m3''))
   \<and> getCoreCount seed_a (Val ''Apple M1'') = Val 8
   \<and> (random seed_a 10 < 1 \<and> random seed_a 11 < 1 \<and> random seed_a 12 < 1
       \<and> random seed_a 13 < 1 \<and> random seed_a 14 < 1)
   \<and> getCoreCount seed_a (Val ''Intel Core i5'') \<in> Val ` {2, 4, 6, 8, 12, 16, 20, 24, 32}"
  using getCoreCount_fixed_cases [of seed_a "''Generic CPU''" "''Apple M1''" "Val ''Intel Core i5''"]
    generic_no_tier apple_tier draws_a_below_1
  unfolding lower_generic lower_apple by blast

text \<open>
  \<^bold>\<open>C10.\<close> The claim: a CPU string containing \<^verbatim>\<open>m1\<close>, \<^verbatim>\<open>m2\<close> or \<^verbatim>\<open>m3\<close> gets exactly
  8 cores. The Apple branch is the fifth of the chain: a string that also names an
  earlier tier is served there.
\<close>

lemma lower_i9_mac:
  "toLowerCase ''Intel Core i9 (pre-m1 MacBook Pro)'' = ''intel core i9 (pre-m1 macbook pro)''"
  by code_simp

lemma i9_mac_includes:
  "str_includes ''intel core i9 (pre-m1 macbook pro)'' ''i9''
   \<and> str_includes ''intel core i9 (pre-m1 macbook pro)'' ''m1''
   \<and> str_includes ''Intel Core i9 (pre-m1 MacBook Pro)'' ''m1''"
  by code_simp

text \<open>The counterexample to C10 as stated.\<close>

theorem m1_string_in_i9_tier:
  "str_includes ''Intel Core i9 (pre-m1 MacBook Pro)'' ''m1''
   \<and> str_includes (toLowerCase ''Intel Core i9 (pre-m1 MacBook Pro)'') ''m1''
   \<and> getCoreCount seed_a (Val ''Intel Core i9 (pre-m1 MacBook Pro)'') = Val 20
   \<and> Val 20 \<noteq> Val (8::nat)"
  using i9_mac_includes
  by (simp add: getCoreCount_def Let_def lower_i9_mac randomChoice_a_10)

section \<open>Rounding to doubles\<close>

lemma binade_bounds:
  assumes "0 < x"
  shows "2 powi binade x \<le> x \<and> x < 2 powi (binade x + 1)"
proof (cases "1 \<le> x")
  case True
  define n where "n = \<lfloor>x\<rfloor>"
  have n: "0 < n" using True by (simp add: n_def)
  from bitlen_bounds [OF n] have b: "2 ^ nat (bitlen n - 1) \<le> n" "n < 2 ^ nat (bitlen n)" by auto
  have b1: "1 \<le> bitlen n" using n by (simp add: bitlen_alt_def)
  have "real_of_int n \<le> x" by (simp add: n_def)
  moreover have "(2::real) ^ nat (bitlen n - 1) \<le> real_of_int n"
    using b(1) by (metis of_int_le_iff of_int_numeral of_int_power)
  ultimately have "(2::real) ^ nat (bitlen n - 1) \<le> x" by linarith
  then have lo: "2 powi (bitlen n - 1) \<le> x"
    using b1 by (simp add: power_int_def)
  have "n + 1 \<le> 2 ^ nat (bitlen n)" using b(2) by simp
  then have "real_of_int (n + 1) \<le> 2 ^ nat (bitlen n)"
    by (metis of_int_le_iff of_int_numeral of_int_power)
  moreover have "x < real_of_int (n + 1)" by (simp add: n_def)
  ultimately have "x < (2::real) ^ nat (bitlen n)" by linarith
  then have hi: "x < 2 powi (bitlen n - 1 + 1)"
    using b1 by (simp add: power_int_def)
  from lo hi True show ?thesis by (simp add: binade_def n_def)
next
  case False
  define y where "y = 1 / x"
  have y: "1 < y" using False assms by (simp add: y_def)
  define m where "m = \<lceil>y\<rceil> - 1"
  have m: "0 < m" using y by (simp add: m_def)
  from bitlen_bounds [OF m] have b: "2 ^ nat (bitlen m - 1) \<le> m" "m < 2 ^ nat (bitlen m)" by auto
  have b1: "1 \<le> bitlen m" using m by (simp add: bitlen_alt_def)
  define k where "k = nat (bitlen m - 1)"
  have bk: "bitlen m = int k + 1" using b1 by (simp add: k_def)
  have p1: "2 powi (- bitlen m + 1) = inverse ((2::real) ^ k)"
  proof -
    have "- bitlen m + 1 = - int k" by (simp add: bk)
    then have "(2::real) powi (- bitlen m + 1) = 2 powi (- int k)" by simp
    also have "\<dots> = inverse (2 powi int k)" by (rule power_int_minus)
    also have "\<dots> = inverse (2 ^ k)" by (simp only: power_int_of_nat)
    finally show ?thesis .
  qed
  have p2: "2 powi (- bitlen m) = inverse ((2::real) ^ Suc k)"
  proof -
    have "- bitlen m = - int (Suc k)" by (simp add: bk)
    then have "(2::real) powi (- bitlen m) = 2 powi (- int (Suc k))" by simp
    also have "\<dots> = inverse (2 powi int (Suc k))" by (rule power_int_minus)
    also have "\<dots> = inverse (2 ^ Suc k)" by (simp only: power_int_of_nat)
    finally show ?thesis .
  qed
  have "real_of_int m < y" by (simp add: m_def) linarith
  moreover have "(2::real) ^ k \<le> real_of_int m"
    using b(1) unfolding k_def by (metis of_int_le_iff of_int_numeral of_int_power)
  ultimately have "(2::real) ^ k < y" by linarith
  then have "(2::real) ^ k < 1 / x" by (simp add: y_def)
  then have "x < inverse (2 ^ k)"
    using assms by (simp add: field_simps)
  then have hi: "x < 2 powi (- bitlen m + 1)" unfolding p1 .
  have "m + 1 \<le> 2 ^ Suc k" using b(2) unfolding bk by (simp add: nat_add_distrib)
  then have "real_of_int (m + 1) \<le> 2 ^ Suc k"
    by (metis of_int_le_iff of_int_numeral of_int_power)
  moreover have "y \<le> real_of_int (m + 1)" by (simp add: m_def)
  ultimately have "y \<le> (2::real) ^ Suc k" by linarith
  then have "1 / x \<le> 2 ^ Suc k" by (simp add: y_def)
  then have "inverse (2 ^ Suc k) \<le> x"
    using assms by (simp add: field_simps)
  then have lo: "2 powi (- bitlen m) \<le> x" unfolding p2 .
  from lo hi False show ?thesis by (simp add: binade_def m_def y_def)
qed


lemma binade_unique:
  assumes "0 < x" and "2 powi e \<le> x" and "x < 2 powi (e + 1)"
  shows "binade x = e"
proof -
  from binade_bounds [OF assms(1)]
  have b: "2 powi binade x \<le> x" "x < 2 powi (binade x + 1)" by auto
  have "binade x < e + 1"
  proof (rule ccontr)
    assume "\<not> ?thesis"
    then have "e + 1 \<le> binade x" by simp
    then have "(2::real) powi (e + 1) \<le> 2 powi binade x"
      by (intro power_int_increasing) simp_all
    with b(1) assms(3) show False by linarith
  qed
  moreover have "e < binade x + 1"
  proof (rule ccontr)
    assume "\<not> ?thesis"
    then have "binade x + 1 \<le> e" by simp
    then have "(2::real) powi (binade x + 1) \<le> 2 powi e"
      by (intro power_int_increasing) simp_all
    with b(2) assms(2) show False by linarith
  qed
  ultimately show ?thesis by simp
qed

lemma round_ties_even_error: "\<bar>real_of_int (round_ties_even t) - t\<bar> \<le> 1 / 2"
proof -
  have "real_of_int \<lfloor>t\<rfloor> \<le> t" "t < real_of_int \<lfloor>t\<rfloor> + 1" by linarith+
  then show ?thesis
    unfolding round_ties_even_def Let_def by (auto simp: abs_le_iff)
qed

lemma round_ties_even_eq:
  assumes "real_of_int m - 1 / 2 < t" and "t < real_of_int m + 1 / 2"
  shows "round_ties_even t = m"
proof -
  have "\<bar>real_of_int (round_ties_even t) - t\<bar> \<le> 1 / 2" by (rule round_ties_even_error)
  with assms have "\<bar>real_of_int (round_ties_even t) - real_of_int m\<bar> < 1" by linarith
  then have "\<bar>real_of_int (round_ties_even t - m)\<bar> < 1" by simp
  then have "\<bar>round_ties_even t - m\<bar> < 1" by linarith
  then show ?thesis by simp
qed

lemma fl_interval:
  assumes "2 powi e \<le> \<bar>x\<bar>" and "\<bar>x\<bar> < 2 powi (e + 1)"
      and "real_of_int m - 1 / 2 < x / 2 powi (e - 52)"
      and "x / 2 powi (e - 52) < real_of_int m + 1 / 2"
  shows "fl x = real_of_int m * 2 powi (e - 52)"
proof -
  have "(0::real) < 2 powi e" by simp
  with assms(1) have pos: "0 < \<bar>x\<bar>" by linarith
  then have nz: "x \<noteq> 0" by simp
  have "binade \<bar>x\<bar> = e" using pos assms(1,2) by (rule binade_unique)
  moreover have "round_ties_even (x / 2 powi (e - 52)) = m"
    using assms(3,4) by (rule round_ties_even_eq)
  ultimately show ?thesis using nz by (simp add: fl_def Let_def)
qed

lemma fl_error: "\<bar>fl x - x\<bar> \<le> \<bar>x\<bar> / 2 ^ 53"
proof (cases "x = 0")
  case True
  then show ?thesis by (simp add: fl_def)
next
  case False
  define e where "e = binade \<bar>x\<bar>"
  define ulp :: real where "ulp = 2 powi (e - 52)"
  have pos: "0 < \<bar>x\<bar>" using False by simp
  have up: "0 < ulp" by (simp add: ulp_def)
  have "2 powi e \<le> \<bar>x\<bar>" using binade_bounds [OF pos] by (simp add: e_def)
  moreover have "(2::real) powi e = ulp * 2 ^ 52"
  proof -
    have "(2::real) powi e = 2 powi ((e - 52) + 52)" by simp
    also have "\<dots> = 2 powi (e - 52) * 2 powi 52"
      by (rule power_int_add) simp
    finally show ?thesis by (simp add: ulp_def)
  qed
  ultimately have u: "ulp * 2 ^ 52 \<le> \<bar>x\<bar>" by simp
  have fl: "fl x = real_of_int (round_ties_even (x / ulp)) * ulp"
    using False by (simp add: fl_def Let_def ulp_def e_def)
  have "\<bar>real_of_int (round_ties_even (x / ulp)) - x / ulp\<bar> \<le> 1 / 2"
    by (rule round_ties_even_error)
  then have "\<bar>real_of_int (round_ties_even (x / ulp)) - x / ulp\<bar> * ulp \<le> 1 / 2 * ulp"
    using up by (intro mult_right_mono) simp_all
  moreover have "\<bar>real_of_int (round_ties_even (x / ulp)) - x / ulp\<bar> * ulp = \<bar>fl x - x\<bar>"
  proof -
    have "\<bar>real_of_int (round_ties_even (x / ulp)) - x / ulp\<bar> * ulp
          = \<bar>(real_of_int (round_ties_even (x / ulp)) - x / ulp) * ulp\<bar>"
      using up by (simp add: abs_mult)
    also have "(real_of_int (round_ties_even (x / ulp)) - x / ulp) * ulp = fl x - x"
      using up by (simp add: fl field_simps)
    finally show ?thesis .
  qed
  ultimately have "\<bar>fl x - x\<bar> \<le> ulp / 2" by simp
  also have "\<dots> \<le> \<bar>x\<bar> / 2 ^ 53" using u by simp
  finally show ?thesis .
qed

lemma fl_sqrt_interval:
  assumes "0 \<le> lo" and "lo = (real_of_int m - 1 / 2) * 2 powi (e - 52)"
      and "hi = (real_of_int m + 1 / 2) * 2 powi (e - 52)"
      and "(2 powi e)\<^sup>2 \<le> v" and "v < (2 powi (e + 1))\<^sup>2"
      and "lo\<^sup>2 < v" and "v < hi\<^sup>2"
  shows "fl (sqrt v) = real_of_int m * 2 powi (e - 52)"
proof (rule fl_interval)
  have v0: "0 \<le> v" using assms(4) by (meson order_trans zero_le_power2)
  have s0: "0 \<le> sqrt v" using v0 by simp
  have u: "(0::real) < 2 powi (e - 52)" by simp
  have "2 powi e \<le> sqrt v" using assms(4) by (rule real_le_rsqrt)
  then show "2 powi e \<le> \<bar>sqrt v\<bar>" using s0 by simp
  have "sqrt v < 2 powi (e + 1)" using assms(5) by (intro real_less_lsqrt) simp_all
  then show "\<bar>sqrt v\<bar> < 2 powi (e + 1)" using s0 by simp
  have "lo < sqrt v" using assms(6) by (rule real_less_rsqrt)
  then have "lo / 2 powi (e - 52) < sqrt v / 2 powi (e - 52)"
    using u by (simp add: divide_strict_right_mono)
  then show "real_of_int m - 1 / 2 < sqrt v / 2 powi (e - 52)"
    unfolding assms(2) using u by simp
  have "lo \<le> hi" unfolding assms(2,3) using u by (intro mult_right_mono) simp_all
  with assms(1) have h0: "0 \<le> hi" by linarith
  have "sqrt v < hi" using h0 assms(7) by (rule real_less_lsqrt)
  then have "sqrt v / 2 powi (e - 52) < hi / 2 powi (e - 52)"
    using u by (simp add: divide_strict_right_mono)
  then show "sqrt v / 2 powi (e - 52) < real_of_int m + 1 / 2"
    unfolding assms(3) using u by simp
qed

lemma fl_eval:
  assumes "2 powi e \<le> \<bar>x\<bar>" and "\<bar>x\<bar> < 2 powi (e + 1)"
      and "real_of_int m - 1 / 2 < x / 2 powi (e - 52)"
      and "x / 2 powi (e - 52) < real_of_int m + 1 / 2"
      and "r = real_of_int m * 2 powi (e - 52)"
  shows "fl x = r"
  unfolding assms(5) using assms(1-4) by (rule fl_interval)

lemma round_ties_even_tie:
  "round_ties_even (real_of_int m + 1 / 2) = (if even m then m else m + 1)"
proof -
  have "\<lfloor>real_of_int m + 1 / 2\<rfloor> = m" by (simp add: floor_unique)
  then show ?thesis by (simp add: round_ties_even_def Let_def)
qed

lemma fl_tie:
  assumes "2 powi e \<le> \<bar>x\<bar>" and "\<bar>x\<bar> < 2 powi (e + 1)"
      and "x / 2 powi (e - 52) = real_of_int m + 1 / 2"
      and "r = real_of_int (if even m then m else m + 1) * 2 powi (e - 52)"
  shows "fl x = r"
proof -
  have "(0::real) < 2 powi e" by simp
  with assms(1) have pos: "0 < \<bar>x\<bar>" by linarith
  then have nz: "x \<noteq> 0" by simp
  have "binade \<bar>x\<bar> = e" using pos assms(1,2) by (rule binade_unique)
  then show ?thesis
    using nz by (simp add: fl_def Let_def assms(3,4) round_ties_even_tie)
qed

lemma fl_zero: "fl 0 = 0"
  by (simp add: fl_def)

section \<open>Canvas noise\<close>

subsection \<open>The configured noise never changes a byte\<close>

lemma toUint8Clamp_near:
  fixes b :: "8 word" and n :: real
  assumes "\<bar>n\<bar> < 1 / 2"
  shows "toUint8Clamp (max 0 (min 255 (real (unat b) + n))) = b"
proof -
  define u where "u = unat b"
  have u255: "u \<le> 255" using unsigned_less [of b, where ?'a = nat] by (simp add: u_def)
  have b_eq: "word_of_nat u = b" by (simp add: u_def)
  define v where "v = real u + n"
  consider "v \<le> 0" | "255 \<le> v" | "0 < v" "v < 255" by linarith
  then have "toUint8Clamp (max 0 (min 255 v)) = b"
  proof cases
    case 1
    then have "u = 0" using assms unfolding v_def by linarith
    then have "b = 0" using b_eq by simp
    moreover have "max 0 (min 255 v) = 0" using 1 by simp
    ultimately show ?thesis by (simp add: toUint8Clamp_def)
  next
    case 2
    then have "u = 255" using assms u255 unfolding v_def by linarith
    then have "b = 255" using b_eq by simp
    moreover have "max 0 (min 255 v) = 255" using 2 by simp
    ultimately show ?thesis by (simp add: toUint8Clamp_def)
  next
    case 3
    then have c: "max 0 (min 255 v) = v" by simp
    show ?thesis
    proof (cases "0 \<le> n")
      case True
      have "\<lfloor>v\<rfloor> = int u" using True assms by (simp add: v_def floor_unique)
      moreover have "v < real u + 1 / 2" using assms unfolding v_def by linarith
      ultimately show ?thesis using 3 b_eq
        unfolding c toUint8Clamp_def Let_def by simp
    next
      case False
      then have "\<lfloor>v\<rfloor> = int u - 1" using assms by (simp add: v_def floor_unique)
      moreover have "real u - 1 / 2 < v" using assms unfolding v_def by linarith
      ultimately show ?thesis using 3 b_eq
        unfolding c toUint8Clamp_def Let_def by simp
    qed
  qed
  then show ?thesis by (simp add: v_def u_def)
qed

lemma fl_near: "\<bar>fl x - x\<bar> \<le> \<bar>x\<bar> / 1000000"
proof -
  have "\<bar>x\<bar> / 2 ^ 53 \<le> \<bar>x\<bar> / 1000000"
    by (intro divide_left_mono) simp_all
  with fl_error [of x] show ?thesis by linarith
qed

lemma fl_nonneg: "0 \<le> x \<Longrightarrow> 0 \<le> fl x"
  using fl_near [of x] by linarith

lemma fl_abs_bound: "\<bar>x\<bar> \<le> B \<Longrightarrow> \<bar>fl x\<bar> \<le> B * (1001 / 1000)"
  using fl_near [of x] by linarith

lemma seededRandom_range: "0 \<le> seededRandom self x y c \<and> seededRandom self x y c \<le> 1001 / 1000"
proof -
  define k where "k = hashCode (ci_seed self @ ''-'' @ toString10 (nat x) @ ''-'' @ toString10 (nat y)
                           @ ''-'' @ toString10 (nat c)) mod 1000"
  have k: "0 \<le> k" "k < 1000" by (simp_all add: k_def)
  define q where "q = real_of_int k / 1000"
  have q: "0 \<le> q" "q \<le> 1" using k by (simp_all add: q_def)
  have r: "seededRandom self x y c = fl q"
    by (simp add: seededRandom_def Let_def k_def q_def)
  have "0 \<le> fl q" using q(1) by (rule fl_nonneg)
  moreover have "\<bar>fl q\<bar> \<le> 1 * (1001 / 1000)"
    using q by (intro fl_abs_bound) simp
  ultimately show ?thesis unfolding r by linarith
qed

lemma noise_small:
  "\<bar>fl (fl (fl (seededRandom (CanvasInterceptor seed) x y c - 0.5) * 255)
        * ci_noiseLevel (CanvasInterceptor seed))\<bar> \<le> 3 / 10"
proof -
  define r where "r = seededRandom (CanvasInterceptor seed) x y c"
  define a where "a = fl (r - 0.5)"
  define m where "m = fl (a * 255)"
  define nl where "nl = fl 0.002"
  have r: "0 \<le> r" "r \<le> 1001 / 1000"
    using seededRandom_range [of "CanvasInterceptor seed" x y c] by (simp_all add: r_def)
  have half: "(0.5::real) = 1 / 2" by simp
  from r have "\<bar>r - 1 / 2\<bar> \<le> 501 / 1000" by linarith
  then have "\<bar>r - 0.5\<bar> \<le> 501 / 1000" unfolding half .
  then have "\<bar>a\<bar> \<le> 501 / 1000 * (1001 / 1000)"
    unfolding a_def by (rule fl_abs_bound)
  then have a: "\<bar>a\<bar> \<le> 51 / 100" by simp
  have "\<bar>a * 255\<bar> = \<bar>a\<bar> * 255" by (simp add: abs_mult)
  with a have "\<bar>a * 255\<bar> \<le> 131" by linarith
  then have "\<bar>m\<bar> \<le> 131 * (1001 / 1000)"
    unfolding m_def by (rule fl_abs_bound)
  then have m: "\<bar>m\<bar> \<le> 132" by simp
  have "\<bar>(0.002::real)\<bar> \<le> 2 / 1000" by simp
  then have "\<bar>nl\<bar> \<le> 2 / 1000 * (1001 / 1000)"
    unfolding nl_def by (rule fl_abs_bound)
  then have nl: "\<bar>nl\<bar> \<le> 21 / 10000" by simp
  have "\<bar>m * nl\<bar> = \<bar>m\<bar> * \<bar>nl\<bar>" by (simp add: abs_mult)
  also have "\<dots> \<le> 132 * (21 / 10000)"
    using m nl by (intro mult_mono) simp_all
  finally have "\<bar>m * nl\<bar> \<le> 2772 / 10000" by simp
  then have "\<bar>fl (m * nl)\<bar> \<le> 2772 / 10000 * (1001 / 1000)"
    by (rule fl_abs_bound)
  then have "\<bar>fl (m * nl)\<bar> \<le> 3 / 10" by simp
  then show ?thesis
    by (simp add: m_def a_def r_def nl_def CanvasInterceptor_def)
qed

lemma sum_near:
  fixes b :: "8 word"
  assumes "\<bar>n\<bar> \<le> 3 / 10"
  shows "\<bar>fl (real (unat b) + n) - real (unat b)\<bar> < 1 / 2"
proof -
  define k where "k = unat b"
  define u where "u = real k"
  have "k \<le> 255" using unsigned_less [of b, where ?'a = nat] by (simp add: k_def)
  then have u: "0 \<le> u" "u \<le> 255" by (simp_all add: u_def)
  with assms have t: "\<bar>u + n\<bar> \<le> 256" by linarith
  have "\<bar>u + n\<bar> / 1000000 \<le> 256 / 1000000" using t by simp
  with fl_near [of "u + n"] have z: "\<bar>fl (u + n) - (u + n)\<bar> \<le> 256 / 1000000"
    by (rule order_trans)
  define z where "z = fl (u + n) - (u + n)"
  have "z \<le> 256 / 1000000" using z unfolding z_def by (rule abs_le_D1)
  moreover have "- z \<le> 256 / 1000000" using z unfolding z_def by (rule abs_le_D2)
  moreover have "n \<le> 3 / 10" using assms by (rule abs_le_D1)
  moreover have "- n \<le> 3 / 10" using assms by (rule abs_le_D2)
  moreover have "fl (u + n) - u = z + n" by (simp add: z_def)
  ultimately have "fl (u + n) - u < 1 / 2" "- (1 / 2) < fl (u + n) - u" by linarith+
  then have "\<bar>fl (u + n) - u\<bar> < 1 / 2" by (intro abs_less_iff [THEN iffD2] conjI) linarith+
  then show ?thesis unfolding u_def k_def .
qed

lemma channel_step_noop: "channel_step (CanvasInterceptor seed) x y pixelIdx d c = d"
proof (cases "typed_get d (pixelIdx + c)")
  case None
  then show ?thesis by (simp add: channel_step_def Let_def)
next
  case (Some b)
  define noise where "noise = fl (fl (fl (seededRandom (CanvasInterceptor seed) x y c - 0.5) * 255)
        * ci_noiseLevel (CanvasInterceptor seed))"
  define n where "n = fl (real (unat b) + noise) - real (unat b)"
  have "\<bar>n\<bar> < 1 / 2"
    unfolding n_def using noise_small [of seed x y c] by (intro sum_near) (simp add: noise_def)
  then have "toUint8Clamp (max 0 (min 255 (real (unat b) + n))) = b"
    by (rule toUint8Clamp_near)
  then have v: "toUint8Clamp (max 0 (min 255 (fl (real (unat b) + noise)))) = b"
    by (simp add: n_def)
  from Some have i: "0 \<le> pixelIdx + c" "pixelIdx + c < int (length d)" "d ! nat (pixelIdx + c) = b"
    by (auto simp: typed_get_def split: if_splits)
  have "typed_set d (pixelIdx + c) b = d"
    using i(1,2) unfolding typed_set_def i(3) [symmetric] by simp
  then show ?thesis
    using Some v unfolding channel_step_def Let_def noise_def by simp
qed

lemma pixel_step_noop: "pixel_step (CanvasInterceptor seed) width edges d p = d"
  by (cases p) (simp add: pixel_step_def Let_def channel_step_noop)

lemma foldl_noop: "(\<And>d p. f d p = d) \<Longrightarrow> foldl f d ps = d"
  by (induction ps) simp_all

lemma noise_pass_noop: "noise_pass (CanvasInterceptor seed) edges imageData = img_data imageData"
  unfolding noise_pass_def Let_def by (rule foldl_noop) (rule pixel_step_noop)

lemma detectEdges_fits:
  "(\<exists>edges. detectEdges (max_array_length w) imageData = Inr edges)
   \<longleftrightarrow> fits w (img_width imageData * img_height imageData)"
  by (simp add: detectEdges_def Let_def new_Uint8ClampedArray_def fits_def)

lemma detectEdges_error:
  "detectEdges limit imageData = Inl e \<Longrightarrow> e = RangeError"
  by (auto simp: detectEdges_def Let_def new_Uint8ClampedArray_def split: if_splits)

lemma applyEdgeNoise_noop:
  assumes "heap w ref = Some imageData"
  shows "applyEdgeNoise (CanvasInterceptor seed) ref w
         = (if fits w (img_width imageData * img_height imageData) then Inr ref
            else Inl RangeError, w)"
proof (cases "detectEdges (max_array_length w) imageData")
  case (Inl e)
  then have "e = RangeError" by (rule detectEdges_error)
  moreover have "\<not> fits w (img_width imageData * img_height imageData)"
    using Inl detectEdges_fits [of w imageData] by auto
  ultimately show ?thesis using assms Inl by (simp add: applyEdgeNoise_def)
next
  case (Inr edges)
  then have "fits w (img_width imageData * img_height imageData)"
    using detectEdges_fits [of w imageData] by auto
  moreover have "(heap w)(ref \<mapsto> imageData) = heap w" using assms by (rule map_upd_triv)
  ultimately show ?thesis using assms Inr by (simp add: applyEdgeNoise_def noise_pass_noop)
qed

subsection \<open>What the noise loops can touch\<close>

lemma typed_set_length: "length (typed_set d i v) = length d"
  by (simp add: typed_set_def)

lemma typed_set_other: "int j \<noteq> i \<Longrightarrow> typed_set d i v ! j = d ! j"
  by (auto simp: typed_set_def)

lemma channel_step_length: "length (channel_step self x y pixelIdx d c) = length d"
  by (simp add: channel_step_def Let_def typed_set_length split: option.splits)

lemma channel_step_other:
  "int j \<noteq> pixelIdx + c \<Longrightarrow> channel_step self x y pixelIdx d c ! j = d ! j"
  by (simp add: channel_step_def Let_def typed_set_other split: option.splits)

lemma pixel_step_unfold:
  "pixel_step self width edges d (y, x)
   = (if typed_get edges (y * width + x) = Some 1
      then channel_step self x y ((y * width + x) * 4)
             (channel_step self x y ((y * width + x) * 4)
                (channel_step self x y ((y * width + x) * 4) d 0) 1) 2
      else d)"
  by (simp add: pixel_step_def Let_def)

lemma pixel_step_length: "length (pixel_step self width edges d p) = length d"
  by (cases p) (simp add: pixel_step_unfold channel_step_length)

lemma divmod4: "0 \<le> k \<Longrightarrow> k < 4 \<Longrightarrow> (idx * 4 + k) div 4 = (idx::int) \<and> (idx * 4 + k) mod 4 = k"
  by simp

lemma pixel_step_changed:
  assumes "pixel_step self width edges d (y, x) ! j \<noteq> d ! j"
  shows "typed_get edges (y * width + x) = Some 1
         \<and> int j div 4 = y * width + x \<and> int j mod 4 < 3"
proof -
  define idx where "idx = y * width + x"
  have e: "typed_get edges idx = Some 1"
  proof (rule ccontr)
    assume "\<not> ?thesis"
    then have "typed_get edges (y * width + x) \<noteq> Some 1"
      unfolding idx_def .
    then have "pixel_step self width edges d (y, x) = d"
      unfolding pixel_step_unfold by (simp only: if_False)
    with assms show False by simp
  qed
  have "int j = idx * 4 + 0 \<or> int j = idx * 4 + 1 \<or> int j = idx * 4 + 2"
  proof (rule ccontr)
    assume "\<not> ?thesis"
    then have n: "int j \<noteq> idx * 4 + 0" "int j \<noteq> idx * 4 + 1" "int j \<noteq> idx * 4 + 2" by blast+
    have "pixel_step self width edges d (y, x) ! j
          = channel_step self x y (idx * 4)
             (channel_step self x y (idx * 4)
                (channel_step self x y (idx * 4) d 0) 1) 2 ! j"
      unfolding pixel_step_unfold idx_def [symmetric] using e by simp
    also have "\<dots> = channel_step self x y (idx * 4)
                (channel_step self x y (idx * 4) d 0) 1 ! j"
      using n(3) by (rule channel_step_other)
    also have "\<dots> = channel_step self x y (idx * 4) d 0 ! j"
      using n(2) by (rule channel_step_other)
    also have "\<dots> = d ! j"
      using n(1) by (rule channel_step_other)
    finally show False using assms by simp
  qed
  then have "int j div 4 = idx \<and> int j mod 4 < 3"
    using divmod4 [of 0 idx] divmod4 [of 1 idx] divmod4 [of 2 idx] by auto
  with e show ?thesis by (simp add: idx_def)
qed

lemma noise_fold_length: "length (foldl (pixel_step self width edges) d ps) = length d"
  by (induction ps arbitrary: d) (simp_all add: pixel_step_length)

lemma noise_fold_changed:
  "foldl (pixel_step self width edges) d ps ! j \<noteq> d ! j \<Longrightarrow>
   \<exists>(y, x) \<in> set ps. typed_get edges (y * width + x) = Some 1
                    \<and> int j div 4 = y * width + x \<and> int j mod 4 < 3"
proof (induction ps arbitrary: d)
  case Nil
  then show ?case by simp
next
  case (Cons p ps)
  obtain y x where p: "p = (y, x)" by (cases p)
  show ?case
  proof (cases "pixel_step self width edges d p ! j = d ! j")
    case True
    with Cons.prems have "foldl (pixel_step self width edges) (pixel_step self width edges d p) ps ! j
                          \<noteq> pixel_step self width edges d p ! j"
      by simp
    from Cons.IH [OF this] show ?thesis by auto
  next
    case False
    from pixel_step_changed [OF False [unfolded p]] show ?thesis by (auto simp: p)
  qed
qed

subsection \<open>What the edge map marks\<close>

lemma edge_fold_length: "length (foldl (edge_step imageData) e ps) = length e"
  by (induction ps arbitrary: e) (auto simp: edge_step_def typed_set_length)

lemma edge_fold_one:
  "typed_get (foldl (edge_step imageData) e ps) i = Some 1 \<Longrightarrow>
   typed_get e i = Some 1
   \<or> (\<exists>(y, x) \<in> set ps. i = y * img_width imageData + x \<and> edge_value imageData x y = 1)"
proof (induction ps arbitrary: e)
  case Nil
  then show ?case by simp
next
  case (Cons q qs)
  obtain y x where q: "q = (y, x)" by (cases q)
  define e' where "e' = edge_step imageData e q"
  from Cons.prems have "typed_get (foldl (edge_step imageData) e' qs) i = Some 1"
    by (simp add: e'_def)
  from Cons.IH [OF this]
  consider "typed_get e' i = Some 1"
    | "\<exists>(y, x) \<in> set qs. i = y * img_width imageData + x \<and> edge_value imageData x y = 1"
    by auto
  then show ?case
  proof cases
    case 1
    show ?thesis
    proof (cases "i = y * img_width imageData + x")
      case True
      with 1 have "edge_value imageData x y = 1"
        by (auto simp: e'_def edge_step_def q typed_set_def typed_get_def split: if_splits)
      with True show ?thesis by (auto simp: q)
    next
      case False
      with 1 have "typed_get e i = Some 1"
        by (auto simp: e'_def edge_step_def q typed_set_def typed_get_def split: if_splits)
      then show ?thesis by simp
    qed
  next
    case 2
    then show ?thesis by auto
  qed
qed

lemma edge_value_one:
  "edge_value imageData x y = 1 \<longleftrightarrow> (\<exists>m. magnitude imageData x y = Some m \<and> m > 30)"
  by (auto simp: edge_value_def split: option.splits)

lemma typed_get_zeros: "typed_get (replicate n 0) i \<noteq> Some 1"
  by (auto simp: typed_get_def)

lemma row_col:
  fixes x y w :: int
  assumes "0 \<le> x" and "x < w"
  shows "(y * w + x) mod w = x \<and> (y * w + x) div w = y"
  using assms by simp

lemma detectEdges_one:
  assumes "detectEdges limit imageData = Inr edges" and "typed_get edges i = Some 1"
  shows "interior imageData (i mod img_width imageData) (i div img_width imageData)
         \<and> (\<exists>m. magnitude imageData (i mod img_width imageData) (i div img_width imageData) = Some m
                 \<and> m > 30)"
proof -
  define w where "w = img_width imageData"
  define h where "h = img_height imageData"
  from assms(1) have edges:
    "edges = foldl (edge_step imageData) (replicate (nat (w * h)) 0)
               (List.product [1..h - 2] [1..w - 2])"
    by (auto simp: detectEdges_def Let_def new_Uint8ClampedArray_def w_def h_def
        split: if_splits)
  from edge_fold_one [OF assms(2) [unfolded edges]] typed_get_zeros [of "nat (w * h)" i]
  obtain y x where yx: "(y, x) \<in> set (List.product [1..h - 2] [1..w - 2])"
    and eq: "i = y * w + x" and v: "edge_value imageData x y = 1"
    unfolding w_def by auto
  from yx have bounds: "1 \<le> y" "y < h - 1" "1 \<le> x" "x < w - 1" by auto
  then have "0 \<le> x" "x < w" by simp_all
  then have "i mod w = x" "i div w = y" unfolding eq using row_col [of x w y] by simp_all
  with bounds v show ?thesis
    unfolding w_def [symmetric] h_def [symmetric]
    by (simp add: interior_def edge_value_one w_def h_def)
qed

lemma noise_pass_length: "length (noise_pass self edges imageData) = length (img_data imageData)"
  by (simp add: noise_pass_def Let_def noise_fold_length)

lemma noise_pass_changed:
  assumes "detectEdges limit imageData = Inr edges"
      and "noise_pass self edges imageData ! j \<noteq> img_data imageData ! j"
  shows "j mod 4 < 3
         \<and> interior imageData (pixel_x imageData j) (pixel_y imageData j)
         \<and> (\<exists>m. magnitude imageData (pixel_x imageData j) (pixel_y imageData j) = Some m \<and> m > 30)"
proof -
  from noise_fold_changed [OF assms(2) [unfolded noise_pass_def Let_def]]
  obtain y x where one: "typed_get edges (y * img_width imageData + x) = Some 1"
    and j: "int j div 4 = y * img_width imageData + x" "int j mod 4 < 3"
    by auto
  have "int (j mod 4) = int j mod 4" by (simp add: zmod_int)
  with j(2) have "int (j mod 4) < 3" by linarith
  then have "j mod 4 < 3" by linarith
  with detectEdges_one [OF assms(1) one] j(1) show ?thesis
    by (simp add: pixel_x_def pixel_y_def)
qed

text \<open>
  \<^bold>\<open>C2.\<close> For every image object and every interceptor (any seed, any noise level),
  \<^verbatim>\<open>applyEdgeNoise\<close> either leaves the call by the \<^verbatim>\<open>RangeError\<close> of the edge-map allocation
  with the world as it was, or leaves everything but the data of that object as it was
  and keeps the length of the data; and then every byte that is an alpha byte, or
  belongs to a pixel that is not in the interior, or to a pixel whose gradient
  magnitude, as the doubles give it, does not exceed 30, has its input value.
\<close>

theorem applyEdgeNoise_frame:
  assumes "heap w ref = Some imageData"
  shows "case detectEdges (max_array_length w) imageData of
           Inl e \<Rightarrow> applyEdgeNoise self ref w = (Inl e, w)
         | Inr edges \<Rightarrow>
             applyEdgeNoise self ref w
               = (Inr ref, w\<lparr>heap := (heap w)(ref \<mapsto>
                     imageData\<lparr>img_data := noise_pass self edges imageData\<rparr>)\<rparr>)
             \<and> length (noise_pass self edges imageData) = length (img_data imageData)
             \<and> (\<forall>j < length (img_data imageData).
                  (j mod 4 = 3
                   \<or> \<not> interior imageData (pixel_x imageData j) (pixel_y imageData j)
                   \<or> \<not> (\<exists>m. magnitude imageData (pixel_x imageData j) (pixel_y imageData j)
                                = Some m \<and> m > 30))
                  \<longrightarrow> noise_pass self edges imageData ! j = img_data imageData ! j)"
proof (cases "detectEdges (max_array_length w) imageData")
  case (Inl e)
  then show ?thesis using assms by (simp add: applyEdgeNoise_def)
next
  case (Inr edges)
  have "applyEdgeNoise self ref w
          = (Inr ref, w\<lparr>heap := (heap w)(ref \<mapsto>
                imageData\<lparr>img_data := noise_pass self edges imageData\<rparr>)\<rparr>)"
    using assms Inr by (simp add: applyEdgeNoise_def)
  moreover have "\<forall>j < length (img_data imageData).
            (j mod 4 = 3
             \<or> \<not> interior imageData (pixel_x imageData j) (pixel_y imageData j)
             \<or> \<not> (\<exists>m. magnitude imageData (pixel_x imageData j) (pixel_y imageData j) = Some m
                       \<and> m > 30))
            \<longrightarrow> noise_pass self edges imageData ! j = img_data imageData ! j"
    using noise_pass_changed [OF Inr, of self] by fastforce
  ultimately show ?thesis using Inr by (simp add: noise_pass_length)
qed

subsection \<open>The roundings of the inputs below\<close>

lemma fl_inst_0: "fl (299 / 1000) = 5386305154335113 / 18014398509481984"
  by (rule fl_eval [where e = "- 2" and m = "5386305154335113"]) simp_all

lemma fl_inst_1: "fl (587 / 1000) = 2643612981266481 / 4503599627370496"
  by (rule fl_eval [where e = "- 1" and m = "5287225962532962"]) simp_all

lemma fl_inst_2: "fl (57 / 500) = 8214565720323785 / 72057594037927936"
  by (rule fl_eval [where e = "- 4" and m = "8214565720323785"]) simp_all

lemma fl_inst_3: "fl (1373507814355453815 / 18014398509481984) = 5365264899825991 / 70368744177664"
  by (rule fl_eval [where e = "6" and m = "5365264899825991"]) simp_all

lemma fl_inst_4: "fl (674121310222952655 / 4503599627370496) = 2633286368058409 / 17592186044416"
  by (rule fl_eval [where e = "7" and m = "5266572736116818"]) simp_all

lemma fl_inst_5: "fl (15898410372059627 / 70368744177664) = 3974602593014907 / 17592186044416"
  by (rule fl_tie [where e = "7" and m = "7949205186029813"]) simp_all

lemma fl_inst_6: "fl (2094714258682565175 / 72057594037927936) = 4091238786489385 / 140737488355328"
  by (rule fl_eval [where e = "4" and m = "8182477572978770"]) simp_all

lemma fl_inst_7: "fl (35888059530608641 / 140737488355328) = 255"
  by (rule fl_eval [where e = "7" and m = "8972014882652160"]) simp_all

lemma fl_inst_8: "fl 255 = 255"
  by (rule fl_eval [where e = "7" and m = "8972014882652160"]) simp_all

lemma fl_inst_9: "fl (- 255) = - 255"
  by (rule fl_eval [where e = "7" and m = "- 8972014882652160"]) simp_all

lemma fl_inst_10: "fl 510 = 510"
  by (rule fl_eval [where e = "8" and m = "8972014882652160"]) simp_all

lemma fl_inst_11: "fl 765 = 765"
  by (rule fl_eval [where e = "9" and m = "6729011161989120"]) simp_all

lemma fl_inst_12: "fl 1020 = 1020"
  by (rule fl_eval [where e = "9" and m = "8972014882652160"]) simp_all

lemma fl_inst_13: "fl 1040400 = 1040400"
  by (rule fl_eval [where e = "19" and m = "8936967949516800"]) simp_all

lemma fl_inst_14: "fl (48476746389016017 / 9007199254740992) = 3029796649313501 / 562949953421312"
  by (rule fl_eval [where e = "2" and m = "6059593298627002"]) simp_all

lemma fl_inst_15: "fl (23792516831398329 / 2251799813685248) = 2974064603924791 / 281474976710656"
  by (rule fl_eval [where e = "3" and m = "5948129207849582"]) simp_all

lemma fl_inst_16: "fl (8977925857163083 / 562949953421312) = 8977925857163083 / 562949953421312"
  by (rule fl_eval [where e = "3" and m = "8977925857163083"]) simp_all

lemma fl_inst_17: "fl (73931091482914065 / 36028797018963968) = 4620693217682129 / 2251799813685248"
  by (rule fl_eval [where e = "1" and m = "4620693217682129"]) simp_all

lemma fl_inst_18: "fl (40532396646334461 / 2251799813685248) = 18"
  by (rule fl_eval [where e = "4" and m = "5066549580791808"]) simp_all

lemma fl_inst_19: "fl 18 = 18"
  by (rule fl_eval [where e = "4" and m = "5066549580791808"]) simp_all

lemma fl_inst_20: "fl (- 18) = - 18"
  by (rule fl_eval [where e = "4" and m = "- 5066549580791808"]) simp_all

lemma fl_inst_21: "fl (59249356697686243 / 18014398509481984) = 1851542396802695 / 562949953421312"
  by (rule fl_eval [where e = "1" and m = "7406169587210780"]) simp_all

lemma fl_inst_22: "fl (29079742793931291 / 4503599627370496) = 7269935698482823 / 1125899906842624"
  by (rule fl_eval [where e = "2" and m = "7269935698482823"]) simp_all

lemma fl_inst_23: "fl (10973020492088213 / 1125899906842624) = 2743255123022053 / 281474976710656"
  by (rule fl_tie [where e = "3" and m = "5486510246044106"]) simp_all

lemma fl_inst_24: "fl (90360222923561635 / 72057594037927936) = 2823756966361301 / 2251799813685248"
  by (rule fl_eval [where e = "0" and m = "5647513932722602"]) simp_all

lemma fl_inst_25: "fl (24769797950537725 / 2251799813685248) = 6192449487634431 / 562949953421312"
  by (rule fl_eval [where e = "3" and m = "6192449487634431"]) simp_all

lemma fl_inst_26: "fl (- (6192449487634431 / 281474976710656)) = - (6192449487634431 / 281474976710656)"
  by (rule fl_eval [where e = "4" and m = "- 6192449487634431"]) simp_all

lemma fl_inst_27: "fl (- (1125899906842623 / 281474976710656)) = - (1125899906842623 / 281474976710656)"
  by (rule fl_eval [where e = "1" and m = "- 9007199254740984"]) simp_all

lemma fl_inst_28: "fl (37704136080345791 / 9007199254740992) = 589127126255403 / 140737488355328"
  by (rule fl_eval [where e = "2" and m = "4713017010043224"]) simp_all

lemma fl_inst_29: "fl (18505290868865367 / 2251799813685248) = 2313161358608171 / 281474976710656"
  by (rule fl_eval [where e = "3" and m = "4626322717216342"]) simp_all

lemma fl_inst_30: "fl (3491415611118977 / 281474976710656) = 3491415611118977 / 281474976710656"
  by (rule fl_eval [where e = "3" and m = "6982831222237954"]) simp_all

lemma fl_inst_31: "fl (57501960042266495 / 36028797018963968) = 449234062830207 / 281474976710656"
  by (rule fl_eval [where e = "0" and m = "7187745005283312"]) simp_all

lemma fl_inst_32: "fl 14 = 14"
  by (rule fl_eval [where e = "3" and m = "7881299347898368"]) simp_all

lemma fl_inst_33: "fl 28 = 28"
  by (rule fl_eval [where e = "4" and m = "7881299347898368"]) simp_all

lemma fl_inst_34: "fl (6755399441055745 / 281474976710656) = 6755399441055745 / 281474976710656"
  by (rule fl_eval [where e = "4" and m = "6755399441055745"]) simp_all

lemma fl_inst_35: "fl (45635421608216271964680197505025 / 79228162514264337593543950336) = 2533274790395905 / 4398046511104"
  by (rule fl_eval [where e = "9" and m = "5066549580791810"]) simp_all

lemma fl_inst_36: "fl 324 = 324"
  by (rule fl_eval [where e = "8" and m = "5699868278390784"]) simp_all

lemma fl_inst_37: "fl (3958241859993601 / 4398046511104) = 3958241859993601 / 4398046511104"
  by (rule fl_eval [where e = "9" and m = "7916483719987202"]) simp_all

lemma fl_inst_38: "fl (853 / 1000) = 3841570482147033 / 4503599627370496"
  by (rule fl_eval [where e = "- 1" and m = "7683140964294066"]) simp_all

lemma fl_inst_39: "fl (1589770668461785 / 4503599627370496) = 1589770668461785 / 4503599627370496"
  by (rule fl_eval [where e = "- 2" and m = "6359082673847140"]) simp_all

lemma fl_inst_40: "fl (405391520457755175 / 4503599627370496) = 6334242507152425 / 70368744177664"
  by (rule fl_eval [where e = "6" and m = "6334242507152425"]) simp_all

lemma fl_inst_41: "fl (6334242507152425 / 140737488355328) = 6334242507152425 / 140737488355328"
  by (rule fl_eval [where e = "5" and m = "6334242507152425"]) simp_all

lemma fl_inst_42: "fl (213 / 250) = 7674133765039325 / 9007199254740992"
  by (rule fl_eval [where e = "- 1" and m = "7674133765039325"]) simp_all

lemma fl_inst_43: "fl (3170534137668829 / 9007199254740992) = 3170534137668829 / 9007199254740992"
  by (rule fl_eval [where e = "- 2" and m = "6341068275337658"]) simp_all

lemma fl_inst_44: "fl (808486205105551395 / 9007199254740992) = 394768654836695 / 4398046511104"
  by (rule fl_eval [where e = "6" and m = "6316298477387120"]) simp_all

lemma fl_inst_45: "fl (394768654836695 / 8796093022208) = 394768654836695 / 8796093022208"
  by (rule fl_eval [where e = "5" and m = "6316298477387120"]) simp_all

lemma fl_inst_46: "fl (851 / 1000) = 958140820723073 / 1125899906842624"
  by (rule fl_eval [where e = "- 1" and m = "7665126565784584"]) simp_all

lemma fl_inst_47: "fl (395190867301761 / 1125899906842624) = 395190867301761 / 1125899906842624"
  by (rule fl_eval [where e = "- 2" and m = "6323053876828176"]) simp_all

lemma fl_inst_48: "fl (100773671161949055 / 1125899906842624) = 787294305952727 / 8796093022208"
  by (rule fl_eval [where e = "6" and m = "6298354447621816"]) simp_all

lemma fl_inst_49: "fl (787294305952727 / 17592186044416) = 787294305952727 / 17592186044416"
  by (rule fl_eval [where e = "5" and m = "6298354447621816"]) simp_all

lemmas fl_insts = fl_zero fl_inst_0 fl_inst_1 fl_inst_2 fl_inst_3 fl_inst_4 fl_inst_5 fl_inst_6 fl_inst_7 fl_inst_8 fl_inst_9 fl_inst_10 fl_inst_11 fl_inst_12 fl_inst_13 fl_inst_14 fl_inst_15 fl_inst_16 fl_inst_17 fl_inst_18 fl_inst_19 fl_inst_20 fl_inst_21 fl_inst_22 fl_inst_23 fl_inst_24 fl_inst_25 fl_inst_26 fl_inst_27 fl_inst_28 fl_inst_29 fl_inst_30 fl_inst_31 fl_inst_32 fl_inst_33 fl_inst_34 fl_inst_35 fl_inst_36 fl_inst_37 fl_inst_38 fl_inst_39 fl_inst_40 fl_inst_41 fl_inst_42 fl_inst_43 fl_inst_44 fl_inst_45 fl_inst_46 fl_inst_47 fl_inst_48 fl_inst_49

subsection \<open>The step image\<close>

lemma gradient_step_image:
  "foldl (kernel_step step_image 1 1) (Some (0, 0)) kernel_offsets = Some (1020, 0)"
  by (simp add: kernel_offsets_def kernel_step_def gray_at_def typed_get_def step_image_def
      black_def white_def sobelX_def sobelY_def fl_insts)

lemma sqrt_1040400: "sqrt 1040400 = 1020"
proof -
  have "sqrt 1040400 = sqrt (1020\<^sup>2)" by simp
  also have "\<dots> = 1020" by (simp only: real_sqrt_abs)
  finally show ?thesis .
qed

lemma magnitude_step_image: "magnitude step_image 1 1 = Some 1020"
  unfolding magnitude_def gradient_step_image by (simp add: fl_insts sqrt_1040400)

lemma edge_value_step_image: "edge_value step_image 1 1 = 1"
  unfolding edge_value_def magnitude_step_image by simp

lemma detectEdges_step_image:
  "detectEdges (max_array_length (world_of step_image)) step_image
   = Inr [0, 0, 0, 0, 1, 0, 0, 0, 0]"
proof -
  have zs: "replicate (nat 9) (0 :: 8 word) = [0, 0, 0, 0, 0, 0, 0, 0, 0]"
    by code_simp
  have alloc: "new_Uint8ClampedArray (max_array_length (world_of step_image))
                 (img_width step_image * img_height step_image)
               = Inr [0, 0, 0, 0, 0, 0, 0, 0, 0]"
    unfolding zs [symmetric]
    by (simp add: new_Uint8ClampedArray_def world_of_def step_image_def)
  have ps: "List.product [1..img_height step_image - 2] [1..img_width step_image - 2] = [(1, 1)]"
    by code_simp
  have w: "(1::int) * img_width step_image + 1 = 4" by code_simp
  have upd: "typed_set [0, 0, 0, 0, 0, 0, 0, 0, 0] 4 1 = [0, 0, 0, 0, 1, 0, 0, 0, 0]"
    by code_simp
  show ?thesis
    unfolding detectEdges_def Let_def alloc ps
    by (simp only: sum.case foldl.simps edge_step_def prod.case w edge_value_step_image upd)
qed

lemma heap_world_of: "heap (world_of imageData) 0 = Some imageData"
  by (simp add: world_of_def)

lemma length_step_image: "length (img_data step_image) = 36"
  by (simp add: step_image_def black_def white_def)

lemma border_step_image: "\<not> interior step_image (pixel_x step_image 3) (pixel_y step_image 3)"
  by (simp add: interior_def pixel_x_def pixel_y_def step_image_def)

text \<open>
  With the noise level raised to 0.5 the pass does change the edge pixel of the step
  image, and nothing else.
\<close>

lemma hashCode_loud_0:
  "hashCode (ci_seed loud_interceptor @ ''-'' @ toString10 (nat 1) @ ''-'' @ toString10 (nat 1)
             @ ''-'' @ toString10 (nat 0)) = 771272853"
  by code_simp

lemma hashCode_loud_1:
  "hashCode (ci_seed loud_interceptor @ ''-'' @ toString10 (nat 1) @ ''-'' @ toString10 (nat 1)
             @ ''-'' @ toString10 (nat 1)) = 771272852"
  by code_simp

lemma hashCode_loud_2:
  "hashCode (ci_seed loud_interceptor @ ''-'' @ toString10 (nat 1) @ ''-'' @ toString10 (nat 1)
             @ ''-'' @ toString10 (nat 2)) = 771272851"
  by code_simp

lemma seededRandom_loud:
  "seededRandom loud_interceptor 1 1 0 = 3841570482147033 / 4503599627370496"
  "seededRandom loud_interceptor 1 1 1 = 7674133765039325 / 9007199254740992"
  "seededRandom loud_interceptor 1 1 2 = 958140820723073 / 1125899906842624"
  unfolding seededRandom_def Let_def hashCode_loud_0 hashCode_loud_1 hashCode_loud_2
  by (simp_all add: fl_insts)

lemma pixels_step_image:
  "List.product [0..img_height step_image - 1] [0..img_width step_image - 1]
   = [(0, 0), (0, 1), (0, 2), (1, 0), (1, 1), (1, 2), (2, 0), (2, 1), (2, 2)]"
  by code_simp

lemma noiseLevel_loud: "ci_noiseLevel loud_interceptor = 1 / 2"
  by (simp add: loud_interceptor_def)

lemma noise_pass_loud:
  "noise_pass loud_interceptor [0, 0, 0, 0, 1, 0, 0, 0, 0] step_image
   = concat [black, black, white, black, [45, 45, 45, 255], white, black, black, white]"
  unfolding noise_pass_def Let_def pixels_step_image
  by (simp add: pixel_step_def channel_step_def typed_get_def typed_set_def Let_def
      seededRandom_loud noiseLevel_loud step_image_def black_def white_def
      toUint8Clamp_def round_ties_even_def fl_insts)

theorem applyEdgeNoise_frame_witness:
  "heap (world_of step_image) 0 = Some step_image
   \<and> detectEdges (max_array_length (world_of step_image)) step_image
       = Inr [0, 0, 0, 0, 1, 0, 0, 0, 0]
   \<and> (3::nat) < length (img_data step_image)
   \<and> (3::nat) mod 4 = 3
   \<and> \<not> interior step_image (pixel_x step_image 3) (pixel_y step_image 3)
   \<and> noise_pass loud_interceptor [0, 0, 0, 0, 1, 0, 0, 0, 0] step_image ! 3
       = img_data step_image ! 3
   \<and> noise_pass loud_interceptor [0, 0, 0, 0, 1, 0, 0, 0, 0] step_image ! 16
       \<noteq> img_data step_image ! 16"
proof -
  have j: "(3::nat) < length (img_data step_image)" by (simp add: length_step_image)
  have a: "(3::nat) mod 4 = 3" by simp
  from applyEdgeNoise_frame [OF heap_world_of [of step_image], of loud_interceptor]
  have "\<forall>j < length (img_data step_image).
            (j mod 4 = 3
             \<or> \<not> interior step_image (pixel_x step_image j) (pixel_y step_image j)
             \<or> \<not> (\<exists>m. magnitude step_image (pixel_x step_image j) (pixel_y step_image j) = Some m
                       \<and> m > 30))
            \<longrightarrow> noise_pass loud_interceptor [0, 0, 0, 0, 1, 0, 0, 0, 0] step_image ! j
                = img_data step_image ! j"
    unfolding detectEdges_step_image by simp
  with j a have "noise_pass loud_interceptor [0, 0, 0, 0, 1, 0, 0, 0, 0] step_image ! 3
                 = img_data step_image ! 3"
    by blast
  moreover have "noise_pass loud_interceptor [0, 0, 0, 0, 1, 0, 0, 0, 0] step_image ! 16
                 \<noteq> img_data step_image ! 16"
    unfolding noise_pass_loud by (simp add: step_image_def black_def white_def)
  ultimately show ?thesis
    using heap_world_of [of step_image] detectEdges_step_image j a border_step_image by blast
qed

subsection \<open>A gradient of 30 in exact arithmetic\<close>

text \<open>
  At the centre of the dim image the exact gradient is \<open>(24, -18)\<close>, of magnitude 30.
  The doubles give \<open>24.000000000000004\<close> for the first component and a magnitude one
  unit in the last place above 30, so \<^verbatim>\<open>detectEdges\<close> marks the pixel.
\<close>

lemma gradient_dim_image:
  "foldl (kernel_step dim_image 1 1) (Some (0, 0)) kernel_offsets
   = Some (6755399441055745 / 281474976710656, - 18)"
  by (simp add: kernel_offsets_def kernel_step_def gray_at_def typed_get_def dim_image_def
      black_def sobelX_def sobelY_def fl_insts)

lemma root_dim_image:
  "fl (sqrt (3958241859993601 / 4398046511104)) = 8444249301319681 / 281474976710656"
proof -
  have "fl (sqrt (3958241859993601 / 4398046511104))
        = real_of_int 8444249301319681 * 2 powi (4 - 52)"
  proof (rule fl_sqrt_interval [where lo = "(real_of_int 8444249301319681 - 1 / 2) * 2 powi (4 - 52)"
        and hi = "(real_of_int 8444249301319681 + 1 / 2) * 2 powi (4 - 52)"])
    show "0 \<le> (real_of_int 8444249301319681 - 1 / 2) * 2 powi (4 - 52)" by simp
    show "((2::real) powi 4)\<^sup>2 \<le> 3958241859993601 / 4398046511104" by simp
    show "3958241859993601 / 4398046511104 < ((2::real) powi (4 + 1))\<^sup>2" by simp
    show "((real_of_int 8444249301319681 - 1 / 2) * 2 powi (4 - 52))\<^sup>2
          < 3958241859993601 / 4398046511104"
      by (simp add: power2_eq_square)
    show "3958241859993601 / 4398046511104
          < ((real_of_int 8444249301319681 + 1 / 2) * 2 powi (4 - 52))\<^sup>2"
      by (simp add: power2_eq_square)
  qed simp_all
  then show ?thesis by simp
qed

lemma magnitude_dim_image:
  "magnitude dim_image 1 1 = Some (8444249301319681 / 281474976710656)"
  unfolding magnitude_def gradient_dim_image by (simp add: fl_insts root_dim_image)

lemma edge_value_dim_image: "edge_value dim_image 1 1 = 1"
  unfolding edge_value_def magnitude_dim_image by simp

text \<open>
  With the noise level raised to 0.5 the three colour bytes of that pixel are written:
  what decides is the magnitude that the doubles give.
\<close>

lemma detectEdges_dim_image:
  "detectEdges (max_array_length (world_of dim_image)) dim_image
   = Inr [0, 0, 0, 0, 1, 0, 0, 0, 0]"
proof -
  have zs: "replicate (nat 9) (0 :: 8 word) = [0, 0, 0, 0, 0, 0, 0, 0, 0]"
    by code_simp
  have alloc: "new_Uint8ClampedArray (max_array_length (world_of dim_image))
                 (img_width dim_image * img_height dim_image)
               = Inr [0, 0, 0, 0, 0, 0, 0, 0, 0]"
    unfolding zs [symmetric]
    by (simp add: new_Uint8ClampedArray_def world_of_def dim_image_def)
  have ps: "List.product [1..img_height dim_image - 2] [1..img_width dim_image - 2] = [(1, 1)]"
    by code_simp
  have w: "(1::int) * img_width dim_image + 1 = 4" by code_simp
  have upd: "typed_set [0, 0, 0, 0, 0, 0, 0, 0, 0] 4 1 = [0, 0, 0, 0, 1, 0, 0, 0, 0]"
    by code_simp
  show ?thesis
    unfolding detectEdges_def Let_def alloc ps
    by (simp only: sum.case foldl.simps edge_step_def prod.case w edge_value_dim_image upd)
qed

lemma pixels_dim_image:
  "List.product [0..img_height dim_image - 1] [0..img_width dim_image - 1]
   = [(0, 0), (0, 1), (0, 2), (1, 0), (1, 1), (1, 2), (2, 0), (2, 1), (2, 2)]"
  by code_simp

lemma noise_pass_loud_dim_image:
  "noise_pass loud_interceptor [0, 0, 0, 0, 1, 0, 0, 0, 0] dim_image
   = concat [black, black, [18, 18, 18, 255],
             [11, 11, 11, 255], [45, 45, 45, 255], [14, 14, 14, 255],
             black, black, black]"
  unfolding noise_pass_def Let_def pixels_dim_image
  by (simp add: pixel_step_def channel_step_def typed_get_def typed_set_def Let_def
      seededRandom_loud noiseLevel_loud dim_image_def black_def
      toUint8Clamp_def round_ties_even_def fl_insts)

lemma applyEdgeNoise_loud_dim_image:
  "applyEdgeNoise loud_interceptor 0 (world_of dim_image)
   = (Inr 0, (world_of dim_image)\<lparr>heap := (heap (world_of dim_image))(0 \<mapsto>
        dim_image\<lparr>img_data := concat [black, black, [18, 18, 18, 255],
                                        [11, 11, 11, 255], [45, 45, 45, 255], [14, 14, 14, 255],
                                        black, black, black]\<rparr>)\<rparr>)"
  by (simp add: applyEdgeNoise_def heap_world_of detectEdges_dim_image
      noise_pass_loud_dim_image)

subsection \<open>In place, and silent on malformed buffers\<close>

lemma well_formed_fits:
  assumes "well_formed imageData" and "fits w (int (length (img_data imageData)))"
  shows "fits w (img_width imageData * img_height imageData)"
proof -
  define n where "n = img_width imageData * img_height imageData"
  define l where "l = int (length (img_data imageData))"
  have "n * 4 = l" using assms(1) by (simp add: well_formed_def n_def l_def)
  moreover have "0 \<le> l" by (simp add: l_def)
  ultimately have "0 \<le> n \<and> n \<le> l" by linarith
  then show ?thesis using assms(2) by (simp add: fits_def n_def l_def)
qed

lemma well_formed_step_image: "well_formed step_image"
  by (simp add: well_formed_def length_step_image) (simp add: step_image_def)

lemma fits_step_image:
  "fits (world_of step_image) (int (length (img_data step_image)))"
  by (simp add: fits_def length_step_image world_of_def)

lemma short_image_malformed: "\<not> well_formed short_image"
  by (simp add: well_formed_def short_image_def length_step_image)

lemma fits_short_image:
  "fits (world_of short_image) (img_width short_image * img_height short_image)"
  by (simp add: fits_def short_image_def world_of_def)

lemma huge_image_malformed: "\<not> well_formed huge_image"
  by (simp add: well_formed_def huge_image_def)

lemma huge_image_too_long:
  "\<not> fits w (img_width huge_image * img_height huge_image)"
  by (simp add: fits_def huge_image_def)

text \<open>
  \<^bold>\<open>C3.\<close> The claim: the perturbation never writes into the caller's buffer; it returns
  a new perturbed copy, or the same reference when no pixel qualifies for noise, and the
  caller's buffer keeps its bytes. \<^verbatim>\<open>applyEdgeNoise\<close> assigns into \<^verbatim>\<open>imageData.data\<close> and
  returns \<^verbatim>\<open>imageData\<close>: on the step image, whose centre pixel qualifies, the reference
  returned is the reference passed and no object is created.
\<close>

theorem same_reference_on_edge_image:
  "heap (world_of step_image) 0 = Some step_image
   \<and> detectEdges (max_array_length (world_of step_image)) step_image
       = Inr [0, 0, 0, 0, 1, 0, 0, 0, 0]
   \<and> applyEdgeNoise (CanvasInterceptor seed_a) 0 (world_of step_image)
       = (Inr 0, world_of step_image)"
  using applyEdgeNoise_noop [OF heap_world_of [of step_image], of seed_a]
    well_formed_fits [OF well_formed_step_image fits_step_image]
  by (simp add: detectEdges_step_image heap_world_of)

text \<open>
  \<^bold>\<open>C3, as amended.\<close> For every interceptor and every image object whose edge map can be
  allocated, \<^verbatim>\<open>applyEdgeNoise\<close> works in place: it returns the reference it was given,
  whether or not a pixel qualifies, creates no object, and changes at most the data of
  that object, keeping its length; with the configured noise level 0.002 every value it
  stores rounds to the byte that was there, so the buffer holds its original bytes after
  the call. When the edge map cannot be allocated the call is left by the \<^verbatim>\<open>RangeError\<close>
  with nothing written. The edge map of a well-formed buffer is shorter than its data,
  so it can be allocated wherever an array as long as the data can.
\<close>

theorem applyEdgeNoise_in_place:
  assumes "heap w ref = Some imageData"
  shows "(if fits w (img_width imageData * img_height imageData)
          then (\<exists>d. applyEdgeNoise self ref w
                       = (Inr ref, w\<lparr>heap := (heap w)(ref \<mapsto> imageData\<lparr>img_data := d\<rparr>)\<rparr>)
                     \<and> length d = length (img_data imageData))
               \<and> applyEdgeNoise (CanvasInterceptor seed) ref w = (Inr ref, w)
          else applyEdgeNoise self ref w = (Inl RangeError, w))
       \<and> (well_formed imageData \<and> fits w (int (length (img_data imageData)))
            \<longrightarrow> fits w (img_width imageData * img_height imageData))"
proof (cases "detectEdges (max_array_length w) imageData")
  case (Inl e)
  then have "e = RangeError" by (rule detectEdges_error)
  moreover have "\<not> fits w (img_width imageData * img_height imageData)"
    using Inl detectEdges_fits [of w imageData] by auto
  ultimately show ?thesis
    using assms Inl well_formed_fits [of imageData w] by (auto simp: applyEdgeNoise_def)
next
  case (Inr edges)
  then have f: "fits w (img_width imageData * img_height imageData)"
    using detectEdges_fits [of w imageData] by auto
  have "applyEdgeNoise self ref w
          = (Inr ref, w\<lparr>heap := (heap w)(ref \<mapsto>
                imageData\<lparr>img_data := noise_pass self edges imageData\<rparr>)\<rparr>)"
    using assms Inr by (simp add: applyEdgeNoise_def)
  with noise_pass_length [of self edges imageData]
  have "\<exists>d. applyEdgeNoise self ref w
               = (Inr ref, w\<lparr>heap := (heap w)(ref \<mapsto> imageData\<lparr>img_data := d\<rparr>)\<rparr>)
             \<and> length d = length (img_data imageData)"
    by blast
  with f applyEdgeNoise_noop [OF assms, of seed] show ?thesis by simp
qed

theorem applyEdgeNoise_in_place_witness:
  "heap (world_of step_image) 0 = Some step_image
   \<and> well_formed step_image
   \<and> fits (world_of step_image) (int (length (img_data step_image)))
   \<and> fits (world_of step_image) (img_width step_image * img_height step_image)
   \<and> applyEdgeNoise (CanvasInterceptor seed_a) 0 (world_of step_image)
       = (Inr 0, world_of step_image)"
proof -
  from applyEdgeNoise_in_place [OF heap_world_of [of step_image],
      of "CanvasInterceptor seed_a" seed_a]
    well_formed_step_image fits_step_image
  have "fits (world_of step_image) (img_width step_image * img_height step_image)
        \<and> applyEdgeNoise (CanvasInterceptor seed_a) 0 (world_of step_image)
            = (Inr 0, world_of step_image)"
    by (simp split: if_splits)
  then show ?thesis
    using heap_world_of [of step_image] well_formed_step_image fits_step_image by blast
qed

text \<open>
  \<^bold>\<open>C4.\<close> The claim: for a buffer whose data length is not \<open>width * height * 4\<close> the call
  returns the original buffer unchanged, reports a diagnostic and never throws. Neither
  \<^verbatim>\<open>applyEdgeNoise\<close> nor \<^verbatim>\<open>detectEdges\<close> compares the dimensions with the length or writes to
  the console: on the step image with its last byte cut off the console is as empty
  after the call as before. And the call can throw: on the image that declares \<open>2^40\<close>
  by \<open>2^40\<close> pixels the allocation of the edge map raises a \<^verbatim>\<open>RangeError\<close>, which nothing
  catches.
\<close>

theorem malformed_buffer_no_diagnostic:
  "heap (world_of short_image) 0 = Some short_image
   \<and> \<not> well_formed short_image
   \<and> applyEdgeNoise (CanvasInterceptor seed_a) 0 (world_of short_image)
       = (Inr 0, world_of short_image)
   \<and> console (world_of short_image) = []
   \<and> heap (world_of huge_image) 0 = Some huge_image
   \<and> \<not> well_formed huge_image
   \<and> applyEdgeNoise (CanvasInterceptor seed_a) 0 (world_of huge_image)
       = (Inl RangeError, world_of huge_image)"
  using applyEdgeNoise_noop [OF heap_world_of [of short_image], of seed_a]
    applyEdgeNoise_noop [OF heap_world_of [of huge_image], of seed_a]
    short_image_malformed huge_image_malformed fits_short_image
    huge_image_too_long [of "world_of huge_image"]
  by (simp add: heap_world_of) (simp add: world_of_def)

text \<open>
  \<^bold>\<open>C4, as amended.\<close> For every image object whose data length is not
  \<open>width * height * 4\<close>, the call with the configured noise level makes no dimension
  check and reports no diagnostic, and the store and the console are as before the
  call. It returns the reference it was given when an edge map of \<open>width * height\<close>
  entries can be allocated; otherwise, the product being negative or beyond what the
  engine allocates, it is left by the \<^verbatim>\<open>RangeError\<close> of that allocation.
\<close>

theorem malformed_buffer_outcome:
  assumes "heap w ref = Some imageData"
      and "\<not> well_formed imageData"
  shows "applyEdgeNoise (CanvasInterceptor seed) ref w
         = (if fits w (img_width imageData * img_height imageData) then Inr ref
            else Inl RangeError, w)"
  using assms(1) by (rule applyEdgeNoise_noop)

theorem malformed_buffer_outcome_witness:
  "heap (world_of short_image) 0 = Some short_image
   \<and> \<not> well_formed short_image
   \<and> fits (world_of short_image) (img_width short_image * img_height short_image)
   \<and> applyEdgeNoise (CanvasInterceptor seed_a) 0 (world_of short_image)
       = (Inr 0, world_of short_image)"
  using malformed_buffer_outcome [OF heap_world_of [of short_image] short_image_malformed,
      of seed_a]
    heap_world_of [of short_image] short_image_malformed fits_short_image
  by simp

end
